theory Spec2Isabelle
  imports Main "HOL-Library.Word"
begin

unbundle bit_operations_syntax

section \<open>Host communication and build lifecycle of the motherboard firmware\<close>

text \<open>
  A shallow embedding of \<^verbatim>\<open>firmware/src/Motherboard/Host.cc\<close>. The globals of the
  \<^verbatim>\<open>host\<close> namespace and the state of the modules it calls (command queue, tool
  channel, storage card, persistent memory, board clock) are the fields of one record
  that every function takes and returns. A \<^verbatim>\<open>uint8_t\<close> is an \<open>8 word\<close>, and so on.
\<close>

type_synonym u8 = "8 word"
type_synonym u16 = "16 word"
type_synonym u32 = "32 word"

subsection \<open>Protocol constants\<close>

text \<open>
  Modelled from the spec: the header \<^verbatim>\<open>Commands.hh\<close> with the opcodes and result
  codes is missing; section 6 of the specification lists the result codes
  (OK, packet-timeout, CRC-mismatch, packet-length-exceeded, generic packet error,
  buffer-overflow, unsupported-command, bot-busy-building, downstream-timeout,
  cancel-notification) and the query opcodes. The numbers are those of the published
  host protocol; the statements below rely only on their being pairwise distinct.
\<close>

definition RC_PACKET_ERROR :: u8 where "RC_PACKET_ERROR = 0x80"
definition RC_OK :: u8 where "RC_OK = 0x81"
definition RC_BUFFER_OVERFLOW :: u8 where "RC_BUFFER_OVERFLOW = 0x82"
definition RC_CRC_MISMATCH :: u8 where "RC_CRC_MISMATCH = 0x83"
definition RC_PACKET_LENGTH :: u8 where "RC_PACKET_LENGTH = 0x84"
definition RC_CMD_UNSUPPORTED :: u8 where "RC_CMD_UNSUPPORTED = 0x85"
definition RC_DOWNSTREAM_TIMEOUT :: u8 where "RC_DOWNSTREAM_TIMEOUT = 0x87"
definition RC_CANCEL_BUILD :: u8 where "RC_CANCEL_BUILD = 0x89"
definition RC_BOT_BUILDING :: u8 where "RC_BOT_BUILDING = 0x8A"
definition RC_PACKET_TIMEOUT :: u8 where "RC_PACKET_TIMEOUT = 0x8C"

lemmas RC_defs =
  RC_PACKET_ERROR_def RC_OK_def RC_BUFFER_OVERFLOW_def RC_CRC_MISMATCH_def
  RC_PACKET_LENGTH_def RC_CMD_UNSUPPORTED_def RC_DOWNSTREAM_TIMEOUT_def
  RC_CANCEL_BUILD_def RC_BOT_BUILDING_def RC_PACKET_TIMEOUT_def

definition HOST_CMD_VERSION :: u8 where "HOST_CMD_VERSION = 0"
definition HOST_CMD_INIT :: u8 where "HOST_CMD_INIT = 1"
definition HOST_CMD_GET_BUFFER_SIZE :: u8 where "HOST_CMD_GET_BUFFER_SIZE = 2"
definition HOST_CMD_CLEAR_BUFFER :: u8 where "HOST_CMD_CLEAR_BUFFER = 3"
definition HOST_CMD_GET_POSITION :: u8 where "HOST_CMD_GET_POSITION = 4"
definition HOST_CMD_ABORT :: u8 where "HOST_CMD_ABORT = 7"
definition HOST_CMD_PAUSE :: u8 where "HOST_CMD_PAUSE = 8"
definition HOST_CMD_TOOL_QUERY :: u8 where "HOST_CMD_TOOL_QUERY = 10"
definition HOST_CMD_IS_FINISHED :: u8 where "HOST_CMD_IS_FINISHED = 11"
definition HOST_CMD_READ_EEPROM :: u8 where "HOST_CMD_READ_EEPROM = 12"
definition HOST_CMD_WRITE_EEPROM :: u8 where "HOST_CMD_WRITE_EEPROM = 13"
definition HOST_CMD_CAPTURE_TO_FILE :: u8 where "HOST_CMD_CAPTURE_TO_FILE = 14"
definition HOST_CMD_END_CAPTURE :: u8 where "HOST_CMD_END_CAPTURE = 15"
definition HOST_CMD_PLAYBACK_CAPTURE :: u8 where "HOST_CMD_PLAYBACK_CAPTURE = 16"
definition HOST_CMD_RESET :: u8 where "HOST_CMD_RESET = 17"
definition HOST_CMD_NEXT_FILENAME :: u8 where "HOST_CMD_NEXT_FILENAME = 18"
definition HOST_CMD_GET_BUILD_NAME :: u8 where "HOST_CMD_GET_BUILD_NAME = 20"
definition HOST_CMD_GET_POSITION_EXT :: u8 where "HOST_CMD_GET_POSITION_EXT = 21"
definition HOST_CMD_EXTENDED_STOP :: u8 where "HOST_CMD_EXTENDED_STOP = 22"
definition HOST_CMD_BOARD_STATUS :: u8 where "HOST_CMD_BOARD_STATUS = 23"
definition HOST_CMD_GET_BUILD_STATS :: u8 where "HOST_CMD_GET_BUILD_STATS = 24"
definition HOST_CMD_ADVANCED_VERSION :: u8 where "HOST_CMD_ADVANCED_VERSION = 27"

lemmas HOST_CMD_defs =
  HOST_CMD_VERSION_def HOST_CMD_INIT_def HOST_CMD_GET_BUFFER_SIZE_def
  HOST_CMD_CLEAR_BUFFER_def HOST_CMD_GET_POSITION_def HOST_CMD_ABORT_def
  HOST_CMD_PAUSE_def HOST_CMD_TOOL_QUERY_def HOST_CMD_IS_FINISHED_def
  HOST_CMD_READ_EEPROM_def HOST_CMD_WRITE_EEPROM_def HOST_CMD_CAPTURE_TO_FILE_def
  HOST_CMD_END_CAPTURE_def HOST_CMD_PLAYBACK_CAPTURE_def HOST_CMD_RESET_def
  HOST_CMD_NEXT_FILENAME_def HOST_CMD_GET_BUILD_NAME_def HOST_CMD_GET_POSITION_EXT_def
  HOST_CMD_EXTENDED_STOP_def HOST_CMD_BOARD_STATUS_def HOST_CMD_GET_BUILD_STATS_def
  HOST_CMD_ADVANCED_VERSION_def

text \<open>
  Modelled from the spec: \<^verbatim>\<open>SLAVE_CMD_PAUSE_UNPAUSE\<close>, the fixed "pause/unpause" opcode
  of the tool link (section 4.3, step 2), is declared in the missing header.
\<close>

definition SLAVE_CMD_PAUSE_UNPAUSE :: u8 where "SLAVE_CMD_PAUSE_UNPAUSE = 23"

text \<open>The heater flags handed to the pause primitive (missing header; two distinct bits).\<close>

definition PAUSE_EXT_OFF :: u8 where "PAUSE_EXT_OFF = 0x01"
definition PAUSE_HBP_OFF :: u8 where "PAUSE_HBP_OFF = 0x02"

text \<open>The board-level indicators that \<^verbatim>\<open>Host.cc\<close> raises through \<^verbatim>\<open>indicateError\<close>.\<close>

datatype BoardError =
    ERR_HOST_PACKET_MISC
  | ERR_CANCEL_BUILD
  | ERR_SLAVE_LOCK_TIMEOUT
  | ERR_HOST_TRUNCATED_CMD
  | ERR_RESET_DURING_BUILD

subsection \<open>Host and build state\<close>

text \<open>
  Modelled from the spec: the enumerations are declared in the missing \<^verbatim>\<open>Host.hh\<close>;
  section 3 gives their values.
\<close>

datatype HostState =
    HOST_STATE_READY
  | HOST_STATE_BUILDING
  | HOST_STATE_BUILDING_FROM_SD
  | HOST_STATE_CANCEL_BUILD

datatype BuildState =
    BUILD_NONE
  | BUILD_RUNNING
  | BUILD_PAUSED
  | BUILD_CANCELLING
  | BUILD_CANCELED
  | BUILD_FINISHED_NORMALLY

subsection \<open>Timeouts\<close>

text \<open>
  Modelled from the spec: the class \<^verbatim>\<open>Timeout\<close> is missing. Section 3: "an arm-time +
  duration value; hasElapsed, isActive, abort, pause(bool), getElapsed -- pausing
  freezes elapsed-time accrual without resetting the arm point". Times are the board's
  32-bit microsecond counter, so differences wrap around. Every operation takes the
  current reading \<open>now\<close> of that counter.
\<close>

record Timeout =
  active :: bool
  elapsed :: bool
  is_paused :: bool
  start_stamp_micros :: u32
  duration_micros :: u32
  pause_micros :: u32

definition Timeout_new :: Timeout where
  "Timeout_new = \<lparr>active = False, elapsed = False, is_paused = False,
     start_stamp_micros = 0, duration_micros = 0, pause_micros = 0\<rparr>"

definition Timeout_start :: "u32 \<Rightarrow> u32 \<Rightarrow> Timeout \<Rightarrow> Timeout" where
  "Timeout_start now d t =
     t\<lparr>active := True, is_paused := False, elapsed := False,
       start_stamp_micros := now, duration_micros := d\<rparr>"

text \<open>\<^verbatim>\<open>hasElapsed\<close> latches: once the duration has passed the timeout stays elapsed.\<close>

definition Timeout_hasElapsed :: "u32 \<Rightarrow> Timeout \<Rightarrow> bool \<times> Timeout" where
  "Timeout_hasElapsed now t =
     (if active t \<and> \<not> elapsed t \<and> \<not> is_paused t
      then (if duration_micros t \<le> now - start_stamp_micros t
            then (True, t\<lparr>active := False, elapsed := True\<rparr>)
            else (elapsed t, t))
      else (elapsed t, t))"

definition Timeout_isActive :: "Timeout \<Rightarrow> bool" where
  "Timeout_isActive t = active t"

definition Timeout_abort :: "Timeout \<Rightarrow> Timeout" where
  "Timeout_abort t = t\<lparr>active := False\<rparr>"

definition Timeout_pause :: "u32 \<Rightarrow> bool \<Rightarrow> Timeout \<Rightarrow> Timeout" where
  "Timeout_pause now pause_in t =
     (if is_paused t \<noteq> pause_in
      then (if pause_in
            then t\<lparr>is_paused := pause_in, pause_micros := now - start_stamp_micros t\<rparr>
            else t\<lparr>is_paused := pause_in, start_stamp_micros := now - pause_micros t\<rparr>)
      else t)"

definition Timeout_getCurrentElapsed :: "u32 \<Rightarrow> Timeout \<Rightarrow> u32" where
  "Timeout_getCurrentElapsed now t =
     (if active t
      then (if is_paused t then pause_micros t else now - start_stamp_micros t)
      else 0)"

definition ONE_HOUR :: u32 where "ONE_HOUR = 3600000000"

subsection \<open>Packets\<close>

text \<open>
  Modelled from the spec: the packet classes are missing; the framing layer "produces
  and consumes already-framed request/response buffers" (section 1). An inbound packet
  is its buffer, the number of payload bytes received, the reception state and the
  error code. Byte 0 of the payload is the opcode. Multi-byte fields are little-endian.
  An outbound packet is the list of bytes appended so far.
\<close>

datatype PacketError =
    NO_ERROR
  | NOISE_BYTE
  | EXCEEDED_MAX_LENGTH
  | BAD_CRC
  | PACKET_TIMEOUT
  | APPEND_BUFFER_OVERFLOW

datatype PacketState = PS_START | PS_RECEIVING | PS_LAST

record InPacket =
  pkt_length :: u8
  pkt_payload :: "u8 list"
  pkt_state :: PacketState
  pkt_error :: PacketError

type_synonym OutPacket = "u8 list"

definition getLength :: "InPacket \<Rightarrow> u8" where
  "getLength p = pkt_length p"

text \<open>
  A read past the end of the buffer returns whatever the memory holds in the C++; the
  model returns 0 there, and no statement below reads out of range.
\<close>

definition read8 :: "InPacket \<Rightarrow> nat \<Rightarrow> u8" where
  "read8 p i = (if i < length (pkt_payload p) then pkt_payload p ! i else 0)"

definition read16 :: "InPacket \<Rightarrow> nat \<Rightarrow> u16" where
  "read16 p i = ucast (read8 p i) OR push_bit 8 (ucast (read8 p (i + 1)))"

definition getErrorCode :: "InPacket \<Rightarrow> PacketError" where
  "getErrorCode p = pkt_error p"

definition hasError :: "InPacket \<Rightarrow> bool" where
  "hasError p = (pkt_error p \<noteq> NO_ERROR)"

definition isStarted :: "InPacket \<Rightarrow> bool" where
  "isStarted p = (pkt_state p \<noteq> PS_START)"

definition isFinished :: "InPacket \<Rightarrow> bool" where
  "isFinished p = (pkt_state p = PS_LAST)"

definition InPacket_reset :: "InPacket \<Rightarrow> InPacket" where
  "InPacket_reset p = p\<lparr>pkt_length := 0, pkt_state := PS_START, pkt_error := NO_ERROR\<rparr>"

definition InPacket_timeout :: "InPacket \<Rightarrow> InPacket" where
  "InPacket_timeout p = (InPacket_reset p)\<lparr>pkt_error := PACKET_TIMEOUT\<rparr>"

definition append8 :: "u8 \<Rightarrow> OutPacket \<Rightarrow> OutPacket" where
  "append8 b out = out @ [b]"

definition append16 :: "u16 \<Rightarrow> OutPacket \<Rightarrow> OutPacket" where
  "append16 v out = append8 (ucast (drop_bit 8 v)) (append8 (ucast v) out)"

definition append32 :: "u32 \<Rightarrow> OutPacket \<Rightarrow> OutPacket" where
  "append32 v out =
     append8 (ucast (drop_bit 24 v)) (append8 (ucast (drop_bit 16 v))
       (append8 (ucast (drop_bit 8 v)) (append8 (ucast v) out)))"

subsection \<open>The command queue\<close>

text \<open>
  Modelled from the spec: the circular buffer and the \<^verbatim>\<open>command\<close> module are missing.
  Section 3: "bounded byte queue with remaining-capacity introspection". A push onto a
  full buffer drops the byte and latches the overflow flag; a pop from an empty buffer
  returns 0 and latches the underflow flag.
\<close>

record CircularBuffer =
  buf_data :: "u8 list"
  buf_size :: nat
  buf_overflow :: bool
  buf_underflow :: bool

definition buf_push :: "u8 \<Rightarrow> CircularBuffer \<Rightarrow> CircularBuffer" where
  "buf_push b q =
     (if length (buf_data q) < buf_size q
      then q\<lparr>buf_data := buf_data q @ [b]\<rparr>
      else q\<lparr>buf_overflow := True\<rparr>)"


definition buf_getRemainingCapacity :: "CircularBuffer \<Rightarrow> nat" where
  "buf_getRemainingCapacity q = buf_size q - length (buf_data q)"

definition buf_reset :: "CircularBuffer \<Rightarrow> CircularBuffer" where
  "buf_reset q = q\<lparr>buf_data := [], buf_overflow := False, buf_underflow := False\<rparr>"

text \<open>
  Modelled from the spec: the pause state of the \<^verbatim>\<open>command\<close> module. Sections 4.1 and
  4.2 speak of the paused state, the unpaused state, and a pause or unpause "transition
  already in progress (intermediate state)". Requesting a pause or an unpause enters the
  matching transition; the command loop completes it on later ticks. A queue on its way
  into the pause already counts as paused for \<^verbatim>\<open>isPaused\<close>, a queue on its way out does
  not; the statements below about \<^verbatim>\<open>pauseBuild\<close> hold under either reading of the two
  transitions.
\<close>

datatype PauseState =
    PAUSE_STATE_NONE
  | PAUSE_STATE_ENTERING
  | PAUSE_STATE_PAUSED
  | PAUSE_STATE_EXITING

subsection \<open>The tool channel\<close>

text \<open>
  Modelled from the spec: the \<^verbatim>\<open>tool\<close> module is missing. Section 3: it "exposes a
  lock, an outbound/inbound packet pair, start/poll/done primitives for one transaction
  at a time". The tool link's driver is outside the sources: \<open>tool_slices_left\<close> is the
  number of driver steps the open transaction still takes, and \<open>tool_reply\<close> is what
  the tool board will have answered (or the driver's timeout) once it is done.
  \<open>tool_lock_attempts\<close> counts the calls of \<^verbatim>\<open>getLock\<close>.
\<close>

record ToolChannel =
  tool_locked :: bool
  tool_transaction_done :: bool
  tool_out :: OutPacket
  tool_in :: InPacket
  tool_index :: u8
  tool_slices_left :: nat
  tool_reply :: InPacket
  tool_lock_attempts :: nat

definition tool_getLock :: "ToolChannel \<Rightarrow> bool \<times> ToolChannel" where
  "tool_getLock t =
     (let t1 = t\<lparr>tool_lock_attempts := tool_lock_attempts t + 1\<rparr>
      in if tool_locked t1 then (False, t1) else (True, t1\<lparr>tool_locked := True\<rparr>))"

definition tool_releaseLock :: "ToolChannel \<Rightarrow> ToolChannel" where
  "tool_releaseLock t = t\<lparr>tool_locked := False\<rparr>"

definition tool_startTransaction :: "ToolChannel \<Rightarrow> ToolChannel" where
  "tool_startTransaction t = t\<lparr>tool_transaction_done := False\<rparr>"

definition tool_isTransactionDone :: "ToolChannel \<Rightarrow> bool" where
  "tool_isTransactionDone t = tool_transaction_done t"

definition tool_runToolSlice :: "ToolChannel \<Rightarrow> ToolChannel" where
  "tool_runToolSlice t =
     (if tool_transaction_done t then t
      else (case tool_slices_left t of
              0 \<Rightarrow> t\<lparr>tool_transaction_done := True, tool_in := tool_reply t\<rparr>
            | Suc n \<Rightarrow> t\<lparr>tool_slices_left := n\<rparr>))"

subsection \<open>Persistent memory\<close>

text \<open>
  Modelled from the spec: the persistent memory is "an external key-value byte store"
  (section 6) addressed by 16-bit offsets; a block operation walks consecutive
  addresses, wrapping with the 16-bit pointer. The offsets of the settings are declared
  in the missing \<^verbatim>\<open>EepromMap.hh\<close>; the statements below do not depend on their values.
  \<^verbatim>\<open>getEeprom8\<close> returns the default for an erased cell (0xFF).
\<close>

type_synonym Eeprom = "u16 \<Rightarrow> u8"

fun eeprom_read_block :: "Eeprom \<Rightarrow> u16 \<Rightarrow> nat \<Rightarrow> u8 list" where
  "eeprom_read_block m a 0 = []"
| "eeprom_read_block m a (Suc n) = m a # eeprom_read_block m (a + 1) n"

fun eeprom_write_block :: "u8 list \<Rightarrow> u16 \<Rightarrow> Eeprom \<Rightarrow> Eeprom" where
  "eeprom_write_block [] a m = m"
| "eeprom_write_block (b # bs) a m = eeprom_write_block bs (a + 1) (m(a := b))"

definition CLEAR_FOR_ESTOP :: u16 where "CLEAR_FOR_ESTOP = 0x0074"
definition ABP_COPIES :: u16 where "ABP_COPIES = 0x0075"
definition EEPROM_DEFAULT_ABP_COPIES :: u8 where "EEPROM_DEFAULT_ABP_COPIES = 1"

subsection \<open>The state\<close>

text \<open>
  First the globals of \<^verbatim>\<open>Host.cc\<close>, then what the modules it calls hold: the board
  (microsecond counter, seconds counter, the indicators raised, the calls of
  \<^verbatim>\<open>reset\<close>), the host UART's packet pair, the command module, the steppers, the
  storage card, the tool channel and the persistent memory. \<open>poll_micros\<close> is how far
  the microsecond counter advances during one iteration of a busy-wait loop; elsewhere
  the counter stands still within one call. The version numbers are build constants
  (\<^verbatim>\<open>Version.hh\<close> is missing) and are carried as fields that no function changes.
  \<open>sd_result\<close> is the answer the storage card gives to the next request to open a
  file or rewind the directory, \<open>sd_directory\<close> the entries not yet enumerated.
  The name buffers are fixed-size arrays: \<^verbatim>\<open>sizeof(buildName)\<close> is \<open>length (buildName s)\<close>.
\<close>

record Host =
  packet_in_timeout :: Timeout
  cancel_timeout :: Timeout
  do_host_reset_timeout :: Timeout
  machineName :: "u8 list"
  buildName :: "u8 list"
  currentState :: HostState
  buildState :: BuildState
  last_print_hours :: u8
  last_print_minutes :: u8
  last_print_line :: u32
  print_time_hours :: u8
  print_time :: Timeout
  do_host_reset :: bool
  hard_reset :: bool
  cancelBuild :: bool
  micros :: u32
  poll_micros :: u32
  current_seconds :: u32
  board_errors :: "BoardError list"
  resets :: "bool list"
  uart_in :: InPacket
  uart_out :: OutPacket
  uart_sending :: bool
  command_buffer :: CircularBuffer
  paused :: PauseState
  pauseHeaterControl :: u8
  line_number :: u32
  copiesToPrint :: u8
  copiesPrinted :: u8
  steppers_running :: bool
  stepper_position :: "u32 list"
  endstop_status :: u8
  sd_capturing :: bool
  sd_playing :: bool
  sd_captured :: "u8 list"
  tool :: ToolChannel
  eeprom :: Eeprom
  firmware_version :: u16
  internal_version :: u16
  software_variant_id :: u8
  sd_result :: u8
  sd_directory :: "(u8 list \<times> bool) list"

definition indicateError :: "BoardError \<Rightarrow> Host \<Rightarrow> Host" where
  "indicateError e s = s\<lparr>board_errors := board_errors s @ [e]\<rparr>"

definition getEeprom8 :: "u16 \<Rightarrow> u8 \<Rightarrow> Host \<Rightarrow> u8" where
  "getEeprom8 location default_value s =
     (let data = eeprom s location in if data = 0xFF then default_value else data)"

definition command_push :: "u8 \<Rightarrow> Host \<Rightarrow> Host" where
  "command_push b s = s\<lparr>command_buffer := buf_push b (command_buffer s)\<rparr>"

definition command_getRemainingCapacity :: "Host \<Rightarrow> nat" where
  "command_getRemainingCapacity s = buf_getRemainingCapacity (command_buffer s)"

definition command_isEmpty :: "Host \<Rightarrow> bool" where
  "command_isEmpty s = (buf_data (command_buffer s) = [])"

definition command_pauseState :: "Host \<Rightarrow> PauseState" where
  "command_pauseState s = paused s"

definition command_isPaused :: "Host \<Rightarrow> bool" where
  "command_isPaused s = (paused s = PAUSE_STATE_ENTERING \<or> paused s = PAUSE_STATE_PAUSED)"

definition command_pauseIntermediateState :: "Host \<Rightarrow> bool" where
  "command_pauseIntermediateState s =
     (\<not> (paused s = PAUSE_STATE_NONE \<or> paused s = PAUSE_STATE_PAUSED))"

definition command_pause :: "bool \<Rightarrow> u8 \<Rightarrow> Host \<Rightarrow> Host" where
  "command_pause pause heaterControl s =
     s\<lparr>paused := (if pause then PAUSE_STATE_ENTERING else PAUSE_STATE_EXITING),
       pauseHeaterControl := heaterControl\<rparr>"

definition command_getLineNumber :: "Host \<Rightarrow> u32" where
  "command_getLineNumber s = line_number s"


definition steppers_abort :: "Host \<Rightarrow> Host" where
  "steppers_abort s = s\<lparr>steppers_running := False\<rparr>"

text \<open>
  Modelled from the spec: the storage-card module is missing; while capturing, an action
  packet is forwarded "verbatim to the capture sink" (section 4.1).
\<close>

definition sdcard_isCapturing :: "Host \<Rightarrow> bool" where
  "sdcard_isCapturing s = sd_capturing s"

definition sdcard_isPlaying :: "Host \<Rightarrow> bool" where
  "sdcard_isPlaying s = sd_playing s"

definition sdcard_capturePacket :: "InPacket \<Rightarrow> Host \<Rightarrow> Host" where
  "sdcard_capturePacket p s =
     s\<lparr>sd_captured := sd_captured s @ take (unat (getLength p)) (pkt_payload p)\<rparr>"

subsection \<open>Action packets\<close>

text \<open>
  The loop \<^verbatim>\<open>for (int i = 0; i < command_length; i++) command::push(from_host.read8(i))\<close>.
\<close>

function push_packet :: "nat \<Rightarrow> nat \<Rightarrow> InPacket \<Rightarrow> Host \<Rightarrow> Host" where
  "push_packet i command_length from_host s =
     (if i < command_length
      then push_packet (i + 1) command_length from_host (command_push (read8 from_host i) s)
      else s)"
  by pat_completeness auto
termination
  by (relation "measure (\<lambda>(i, n, p, s). n - i)") auto

declare push_packet.simps [simp del]

text \<open>
  \<^verbatim>\<open>processCommandPacket\<close>: the result is whether the packet was an action packet, the
  reply and the new state. The atomic block is the whole check-and-push: nothing
  interleaves with it in the model.
\<close>

definition processCommandPacket :: "InPacket \<Rightarrow> OutPacket \<Rightarrow> Host \<Rightarrow> bool \<times> OutPacket \<times> Host" where
  "processCommandPacket from_host to_host s =
     (if 1 \<le> unat (getLength from_host)
      then (let command = read8 from_host 0 in
        if command AND 0x80 \<noteq> 0
        then (if sdcard_isCapturing s
              then (True, append8 RC_OK to_host, sdcard_capturePacket from_host s)
              else if sdcard_isPlaying s
              then (True, append8 RC_BOT_BUILDING to_host, s)
              else (let command_length = getLength from_host in
                if unat command_length \<le> command_getRemainingCapacity s
                then (True, append8 RC_OK to_host,
                      push_packet 0 (unat command_length) from_host s)
                else (True, append8 RC_BUFFER_OVERFLOW to_host, s)))
        else (False, to_host, s))
      else (False, to_host, s))"

subsection \<open>Print time\<close>


text \<open>\<^verbatim>\<open>getPrintTime\<close> returns hours and minutes; the minutes are cut to 8 bits.\<close>

definition getPrintTime :: "Host \<Rightarrow> u8 \<times> u8" where
  "getPrintTime s =
     (print_time_hours s,
      ucast (Timeout_getCurrentElapsed (micros s) (print_time s) div 60000000))"

definition stopPrintTime :: "Host \<Rightarrow> Host" where
  "stopPrintTime s =
     (case getPrintTime s of (hours, minutes) \<Rightarrow>
        s\<lparr>last_print_hours := hours, last_print_minutes := minutes,
          print_time := Timeout_new, print_time_hours := 0\<rparr>)"

definition managePrintTime :: "Host \<Rightarrow> Host" where
  "managePrintTime s =
     (case Timeout_hasElapsed (micros s) (print_time s) of (e, t) \<Rightarrow>
        if e
        then s\<lparr>print_time := Timeout_start (micros s) ONE_HOUR t,
               print_time_hours := print_time_hours s + 1\<rparr>
        else s\<lparr>print_time := t\<rparr>)"

subsection \<open>Stopping and pausing a build\<close>

definition stopBuildNow :: "Host \<Rightarrow> Host" where
  "stopBuildNow s =
     (let s1 = (if currentState s = HOST_STATE_BUILDING
                then s\<lparr>currentState := HOST_STATE_CANCEL_BUILD,
                       cancel_timeout := Timeout_start (micros s) 1000000 (cancel_timeout s),
                       cancelBuild := True\<rparr>
                else s);
          s2 = s1\<lparr>last_print_line := command_getLineNumber s1\<rparr>;
          s3 = stopPrintTime s2
      in s3\<lparr>do_host_reset := True,
            do_host_reset_timeout := Timeout_start (micros s3) 200000 (do_host_reset_timeout s3),
            buildState := BUILD_CANCELED\<rparr>)"

definition stopBuild :: "Host \<Rightarrow> Host" where
  "stopBuild s =
     (let s1 = steppers_abort (s\<lparr>buildState := BUILD_CANCELLING\<rparr>)
      in if command_isPaused s1 \<or> command_pauseIntermediateState s1
         then stopBuildNow s1
         else command_pause True 0 s1)"

definition pauseBuild :: "bool \<Rightarrow> u8 \<Rightarrow> Host \<Rightarrow> Host" where
  "pauseBuild pause heaterControl s =
     (if \<not> (pause = command_isPaused s)
      then (if command_pauseIntermediateState s then s
            else (let s1 = command_pause pause heaterControl s in
              if pause
              then s1\<lparr>buildState := BUILD_PAUSED,
                      print_time := Timeout_pause (micros s1) True (print_time s1)\<rparr>
              else s1\<lparr>buildState := BUILD_RUNNING,
                      print_time := Timeout_pause (micros s1) False (print_time s1)\<rparr>))
      else s)"

definition resetBuild :: "Host \<Rightarrow> Host" where
  "resetBuild s =
     s\<lparr>machineName := (machineName s)[0 := 0], buildName := (buildName s)[0 := 0],
       currentState := HOST_STATE_READY\<rparr>"

subsection \<open>Build notifications from the command stream\<close>






definition command_pauseHeaters :: "u8 \<Rightarrow> Host \<Rightarrow> Host" where
  "command_pauseHeaters heaterControl s = s\<lparr>pauseHeaterControl := heaterControl\<rparr>"

definition handleBuildStopNotification :: "u8 \<Rightarrow> Host \<Rightarrow> Host" where
  "handleBuildStopNotification stopFlags s =
     (if copiesToPrint s = 0 \<or> uint (copiesToPrint s) - 1 \<le> uint (copiesPrinted s)
      then (let s1 = stopPrintTime s;
                s2 = s1\<lparr>last_print_line := command_getLineNumber s1\<rparr>;
                s3 = command_pauseHeaters (PAUSE_EXT_OFF OR PAUSE_HBP_OFF) s2
            in s3\<lparr>buildState := BUILD_FINISHED_NORMALLY, currentState := HOST_STATE_READY\<rparr>)
      else s)"

subsection \<open>Collaborators of the query handlers\<close>

text \<open>
  Modelled from the spec: the storage card, the steppers and the reset of the command
  module are missing. The card answers a request with a status code (section 6); a
  capture or a playback is active after a request the card accepted. The codes the
  handlers compare with are declared in a missing header.
\<close>

definition SD_SUCCESS :: u8 where "SD_SUCCESS = 0"
definition SD_ERR_CARD_LOCKED :: u8 where "SD_ERR_CARD_LOCKED = 6"
definition SD_CWD :: u8 where "SD_CWD = 11"

definition sdcard_startCapture :: "u8 list \<Rightarrow> Host \<Rightarrow> u8 \<times> Host" where
  "sdcard_startCapture filename s =
     (sd_result s,
      if sd_result s = SD_SUCCESS then s\<lparr>sd_capturing := True, sd_captured := []\<rparr> else s)"

definition sdcard_finishCapture :: "Host \<Rightarrow> u32 \<times> Host" where
  "sdcard_finishCapture s = (of_nat (length (sd_captured s)), s\<lparr>sd_capturing := False\<rparr>)"

definition sdcard_reset :: "Host \<Rightarrow> Host" where
  "sdcard_reset s = s\<lparr>sd_capturing := False, sd_playing := False\<rparr>"

definition sdcard_startPlayback :: "u8 list \<Rightarrow> Host \<Rightarrow> u8 \<times> Host" where
  "sdcard_startPlayback filename s =
     (sd_result s, if sd_result s = SD_SUCCESS then s\<lparr>sd_playing := True\<rparr> else s)"

definition sdcard_directoryReset :: "Host \<Rightarrow> u8 \<times> Host" where
  "sdcard_directoryReset s = (sd_result s, s)"

definition command_reset :: "Host \<Rightarrow> Host" where
  "command_reset s =
     s\<lparr>command_buffer := buf_reset (command_buffer s), line_number := 0,
       paused := PAUSE_STATE_NONE, copiesToPrint := 0, copiesPrinted := 0\<rparr>"

definition steppers_reset :: "Host \<Rightarrow> Host" where
  "steppers_reset s = s\<lparr>steppers_running := False\<rparr>"

definition steppers_isRunning :: "Host \<Rightarrow> bool" where
  "steppers_isRunning s = steppers_running s"

text \<open>A coordinate of the stepper position; an axis the board does not have reads 0.\<close>

definition getStepperPosition :: "Host \<Rightarrow> nat \<Rightarrow> u32" where
  "getStepperPosition s i =
     (if i < length (stepper_position s) then stepper_position s ! i else 0)"

text \<open>
  Modelled from the spec: \<^verbatim>\<open>reset(hard_reset)\<close> of the missing \<^verbatim>\<open>Main.cc\<close> resets the
  board; the model records each call with its argument.
\<close>

definition reset :: "bool \<Rightarrow> Host \<Rightarrow> Host" where
  "reset hard s = s\<lparr>resets := resets s @ [hard]\<rparr>"

subsection \<open>Query handlers\<close>

text \<open>Every handler takes the request, the reply so far and the state, and returns the
  reply and the state.\<close>

definition handleVersion :: "InPacket \<Rightarrow> OutPacket \<Rightarrow> Host \<Rightarrow> OutPacket \<times> Host" where
  "handleVersion from_host to_host s =
     (let rv = read16 from_host 1 in
      if rv \<noteq> 29 \<and> sint rv < 39
      then (append16 0x0000 (append8 RC_OK to_host), s)
      else (append16 (firmware_version s) (append8 RC_OK to_host), s))"

definition handleGetAdvancedVersion :: "InPacket \<Rightarrow> OutPacket \<Rightarrow> Host \<Rightarrow> OutPacket \<times> Host" where
  "handleGetAdvancedVersion from_host to_host s =
     (append16 0 (append8 0 (append8 (software_variant_id s)
        (append16 (internal_version s) (append16 (firmware_version s)
          (append8 RC_OK to_host))))), s)"

text \<open>The loop of \<^verbatim>\<open>handleGetBuildName\<close>: bytes up to and including the first NUL,
  at most the whole array.\<close>

fun append_name :: "u8 list \<Rightarrow> OutPacket \<Rightarrow> OutPacket" where
  "append_name [] to_host = to_host"
| "append_name (c # cs) to_host =
     (if c = 0 then append8 c to_host else append_name cs (append8 c to_host))"

definition handleGetBuildName :: "InPacket \<Rightarrow> OutPacket \<Rightarrow> Host \<Rightarrow> OutPacket \<times> Host" where
  "handleGetBuildName from_host to_host s =
     (append_name (buildName s) (append8 RC_OK to_host), s)"

definition handleGetBufferSize :: "InPacket \<Rightarrow> OutPacket \<Rightarrow> Host \<Rightarrow> OutPacket \<times> Host" where
  "handleGetBufferSize from_host to_host s =
     (append32 (of_nat (command_getRemainingCapacity s)) (append8 RC_OK to_host), s)"

definition handleGetPosition :: "InPacket \<Rightarrow> OutPacket \<Rightarrow> Host \<Rightarrow> OutPacket \<times> Host" where
  "handleGetPosition from_host to_host s =
     (append8 (endstop_status s)
        (append32 (getStepperPosition s 2) (append32 (getStepperPosition s 1)
          (append32 (getStepperPosition s 0) (append8 RC_OK to_host)))), s)"

text \<open>\<^verbatim>\<open>STEPPER_COUNT\<close> is the number of axes of the position.\<close>

definition handleGetPositionExt :: "InPacket \<Rightarrow> OutPacket \<Rightarrow> Host \<Rightarrow> OutPacket \<times> Host" where
  "handleGetPositionExt from_host to_host s =
     (let o3 = append32 (getStepperPosition s 2) (append32 (getStepperPosition s 1)
                 (append32 (getStepperPosition s 0) (append8 RC_OK to_host)));
          o5 = (if 3 < length (stepper_position s)
                then append32 (getStepperPosition s 4) (append32 (getStepperPosition s 3) o3)
                else append32 0 (append32 0 o3))
      in (append16 (ucast (endstop_status s)) o5, s))"

text \<open>The file name of a request: the bytes after the opcode, up to the first NUL.\<close>

definition packet_string :: "InPacket \<Rightarrow> u8 list" where
  "packet_string p = takeWhile (\<lambda>c. c \<noteq> 0) (drop 1 (pkt_payload p))"

definition handleCaptureToFile :: "InPacket \<Rightarrow> OutPacket \<Rightarrow> Host \<Rightarrow> OutPacket \<times> Host" where
  "handleCaptureToFile from_host to_host s =
     (case sdcard_startCapture (packet_string from_host) s of (e, s1) \<Rightarrow>
        (append8 e (append8 RC_OK to_host), s1))"

definition handleEndCapture :: "InPacket \<Rightarrow> OutPacket \<Rightarrow> Host \<Rightarrow> OutPacket \<times> Host" where
  "handleEndCapture from_host to_host s =
     (case sdcard_finishCapture s of (n, s1) \<Rightarrow>
        (append32 n (append8 RC_OK to_host), sdcard_reset s1))"

text \<open>
  \<^verbatim>\<open>startBuildFromSD\<close> takes a pointer to a file name. The code tells three cases apart:
  the null pointer, which stands for the build name already stored; the \<^verbatim>\<open>buildName\<close>
  array itself, of which nothing is copied; and any other buffer, whose name is copied
  into \<^verbatim>\<open>buildName\<close>, cut to the array less one byte.
\<close>

datatype FileNameArg = NullName | BuildNameItself | OtherName "u8 list"

function copy_fname :: "nat \<Rightarrow> u8 list \<Rightarrow> u8 list \<Rightarrow> nat \<times> u8 list" where
  "copy_fname i fname name =
     (if i < length fname \<and> fname ! i \<noteq> 0
      then (if length name - 1 \<le> i + 1
            then (i + 1, name[i := fname ! i])
            else copy_fname (i + 1) fname (name[i := fname ! i]))
      else (i, name))"
  by pat_completeness auto
termination
  by (relation "measure (\<lambda>(i, fname, name). length fname - i)") auto

declare copy_fname.simps [simp del]

definition startBuildFromSD :: "FileNameArg \<Rightarrow> Host \<Rightarrow> u8 \<times> Host" where
  "startBuildFromSD fname s =
     (let s1 = (case fname of
                  NullName \<Rightarrow> s
                | BuildNameItself \<Rightarrow> s
                | OtherName f \<Rightarrow> (case copy_fname 0 f (buildName s) of (i, name) \<Rightarrow>
                                  s\<lparr>buildName := name[i := 0]\<rparr>));
          f1 = (case fname of
                  NullName \<Rightarrow> buildName s1
                | BuildNameItself \<Rightarrow> buildName s1
                | OtherName f \<Rightarrow> f)
      in case sdcard_startPlayback (takeWhile (\<lambda>c. c \<noteq> 0) f1) s1 of (e, s2) \<Rightarrow>
        if e = SD_CWD then (SD_SUCCESS, s2)
        else if e \<noteq> SD_SUCCESS then (e, s2)
        else (let s3 = steppers_abort (steppers_reset (command_reset s2))
              in (e, s3\<lparr>copiesToPrint := getEeprom8 ABP_COPIES EEPROM_DEFAULT_ABP_COPIES s3,
                       currentState := HOST_STATE_BUILDING_FROM_SD\<rparr>)))"

text \<open>The loop of \<^verbatim>\<open>handlePlayback\<close> that stores the requested name.\<close>

function store_name :: "nat \<Rightarrow> InPacket \<Rightarrow> u8 list \<Rightarrow> u8 list" where
  "store_name idx from_host name =
     (if idx < unat (getLength from_host) \<and> idx < length name
      then store_name (idx + 1) from_host (name[idx - 1 := read8 from_host idx])
      else name)"
  by pat_completeness auto
termination
  by (relation "measure (\<lambda>(idx, p, name). length name - idx)") auto

declare store_name.simps [simp del]

definition handlePlayback :: "InPacket \<Rightarrow> OutPacket \<Rightarrow> Host \<Rightarrow> OutPacket \<times> Host" where
  "handlePlayback from_host to_host s =
     (let name = store_name 1 from_host (buildName s);
          s1 = s\<lparr>buildName := name[length name - 1 := 0]\<rparr>
      in case startBuildFromSD NullName s1 of (e, s2) \<Rightarrow>
        (append8 e (append8 RC_OK to_host), s2))"

text \<open>
  The loop of \<^verbatim>\<open>handleNextFilename\<close> that skips the entries starting with a dot, the
  directory \<^verbatim>\<open>..\<close> apart. An empty name marks the end of the directory.
\<close>

fun next_entry :: "(u8 list \<times> bool) list \<Rightarrow> u8 list \<times> (u8 list \<times> bool) list" where
  "next_entry [] = ([], [])"
| "next_entry ((fnbuf, isdir) # es) =
     (if takeWhile (\<lambda>c. c \<noteq> 0) fnbuf = [] then ([], es)
      else if hd fnbuf \<noteq> 0x2E \<or> (isdir \<and> takeWhile (\<lambda>c. c \<noteq> 0) fnbuf = [0x2E, 0x2E])
      then (fnbuf, es)
      else next_entry es)"

definition handleNextFilename :: "InPacket \<Rightarrow> OutPacket \<Rightarrow> Host \<Rightarrow> OutPacket \<times> Host" where
  "handleNextFilename from_host to_host s =
     (let o1 = append8 RC_OK to_host;
          resetFlag = read8 from_host 1;
          (e, s1) = (if resetFlag \<noteq> 0 then sdcard_directoryReset s else (SD_SUCCESS, s))
      in if resetFlag \<noteq> 0 \<and> e \<noteq> SD_SUCCESS \<and> e \<noteq> SD_ERR_CARD_LOCKED
         then (append8 0 (append8 e o1), s1)
         else (case next_entry (sd_directory s1) of (fnbuf, es) \<Rightarrow>
           (append8 0
              (append8 SD_SUCCESS o1 @
                 take (length (buildName s1)) (takeWhile (\<lambda>c. c \<noteq> 0) fnbuf)),
            s1\<lparr>sd_directory := es\<rparr>)))"

definition handleIsFinished :: "InPacket \<Rightarrow> OutPacket \<Rightarrow> Host \<Rightarrow> OutPacket \<times> Host" where
  "handleIsFinished from_host to_host s =
     (let done = (\<not> steppers_isRunning s \<and> command_isEmpty s)
      in (append8 (if done then 1 else 0) (append8 RC_OK to_host), s))"

definition handleExtendedStop :: "InPacket \<Rightarrow> OutPacket \<Rightarrow> Host \<Rightarrow> OutPacket \<times> Host" where
  "handleExtendedStop from_host to_host s =
     (let flags = read8 from_host 1;
          s1 = (if flags AND 1 \<noteq> 0 then steppers_abort s else s);
          s2 = (if flags AND 2 \<noteq> 0 then command_reset s1 else s1)
      in (append8 0 (append8 RC_OK to_host), s2))"

text \<open>
  Modelled from the spec: the byte that stands for a build state on the wire; the values
  of the enumeration are declared in the missing \<^verbatim>\<open>Host.hh\<close>.
\<close>

definition BuildState_byte :: "BuildState \<Rightarrow> u8" where
  "BuildState_byte b =
     (case b of
        BUILD_NONE \<Rightarrow> 0 | BUILD_RUNNING \<Rightarrow> 1 | BUILD_FINISHED_NORMALLY \<Rightarrow> 2
      | BUILD_PAUSED \<Rightarrow> 3 | BUILD_CANCELED \<Rightarrow> 4 | BUILD_CANCELLING \<Rightarrow> 5)"

definition handleGetBuildStats :: "OutPacket \<Rightarrow> Host \<Rightarrow> OutPacket \<times> Host" where
  "handleGetBuildStats to_host s =
     (case getPrintTime s of (hours, minutes) \<Rightarrow>
        (let o1 = append8 minutes (append8 hours
                    (append8 (BuildState_byte (buildState s)) (append8 RC_OK to_host)));
             o2 = (if buildState s = BUILD_RUNNING \<or> buildState s = BUILD_PAUSED
                   then append32 (command_getLineNumber s) o1
                   else append32 (last_print_line s) o1)
         in (append32 0 o2, s)))"

definition handleGetBoardStatus :: "OutPacket \<Rightarrow> Host \<Rightarrow> OutPacket \<times> Host" where
  "handleGetBoardStatus to_host s = (append8 0 (append8 RC_OK to_host), s)"

subsection \<open>Persistent-memory queries\<close>

text \<open>The loop \<^verbatim>\<open>for (int i = 0; i < length; i++) to_host.append8(data[i])\<close>.\<close>

function append_data :: "nat \<Rightarrow> nat \<Rightarrow> u8 list \<Rightarrow> OutPacket \<Rightarrow> OutPacket" where
  "append_data i n data to_host =
     (if i < n then append_data (i + 1) n data (append8 (data ! i) to_host) else to_host)"
  by pat_completeness auto
termination
  by (relation "measure (\<lambda>(i, n, data, out). n - i)") auto

declare append_data.simps [simp del]

definition handleReadEeprom :: "InPacket \<Rightarrow> OutPacket \<Rightarrow> Host \<Rightarrow> OutPacket \<times> Host" where
  "handleReadEeprom from_host to_host s =
     (let offset = read16 from_host 1;
          len = read8 from_host 3;
          data = eeprom_read_block (eeprom s) offset (unat len)
      in (append_data 0 (unat len) data (append8 RC_OK to_host), s))"

text \<open>The loop \<^verbatim>\<open>for (int i = 0; i < length; i++) data[i] = from_host.read8(i + 4)\<close>.\<close>

function fill_data :: "nat \<Rightarrow> nat \<Rightarrow> InPacket \<Rightarrow> u8 list \<Rightarrow> u8 list" where
  "fill_data i n from_host data =
     (if i < n then fill_data (i + 1) n from_host (data[i := read8 from_host (i + 4)])
      else data)"
  by pat_completeness auto
termination
  by (relation "measure (\<lambda>(i, n, p, data). n - i)") auto

declare fill_data.simps [simp del]

definition handleWriteEeprom :: "InPacket \<Rightarrow> OutPacket \<Rightarrow> Host \<Rightarrow> OutPacket \<times> Host" where
  "handleWriteEeprom from_host to_host s =
     (let offset = read16 from_host 1;
          len = read8 from_host 3;
          data0 = eeprom_read_block (eeprom s) offset (unat len);
          data = fill_data 0 (unat len) from_host data0
      in (append8 len (append8 RC_OK to_host),
          s\<lparr>eeprom := eeprom_write_block data offset (eeprom s)\<rparr>))"

subsection \<open>Tool transactions\<close>

definition HOST_TOOL_RESPONSE_TIMEOUT_MICROS :: u32 where
  "HOST_TOOL_RESPONSE_TIMEOUT_MICROS = 1000 * 50"

definition HOST_PACKET_TIMEOUT_MICROS :: u32 where
  "HOST_PACKET_TIMEOUT_MICROS = 1000 * 200"

text \<open>
  The loop \<^verbatim>\<open>while (!tool::getLock()) { if (acquire_lock_timeout.hasElapsed()) ... return; }\<close>.
  It ends with the lock (\<open>True\<close>) or with the timeout elapsed (\<open>False\<close>); the clock
  advances by \<open>poll_micros\<close> per iteration. The first argument bounds the number of
  iterations: \<open>None\<close> is a loop still spinning when the bound is reached.
\<close>

fun acquire_lock :: "nat \<Rightarrow> Timeout \<Rightarrow> Host \<Rightarrow> (bool \<times> Host) option" where
  "acquire_lock 0 acquire_lock_timeout s = None"
| "acquire_lock (Suc fuel) acquire_lock_timeout s =
     (case tool_getLock (tool s) of (got, ch) \<Rightarrow>
        if got then Some (True, s\<lparr>tool := ch\<rparr>)
        else (case Timeout_hasElapsed (micros s) acquire_lock_timeout of (e, t1) \<Rightarrow>
          if e then Some (False, s\<lparr>tool := ch\<rparr>)
          else acquire_lock fuel t1 (s\<lparr>tool := ch, micros := micros s + poll_micros s\<rparr>)))"

text \<open>The loop \<^verbatim>\<open>while (!tool::isTransactionDone()) { tool::runToolSlice(); }\<close>.\<close>

function tool_pump :: "ToolChannel \<Rightarrow> ToolChannel" where
  "tool_pump t = (if \<not> tool_isTransactionDone t then tool_pump (tool_runToolSlice t) else t)"
  by pat_completeness auto
termination
  by (relation "measure (\<lambda>t. if tool_transaction_done t then 0 else Suc (tool_slices_left t))")
     (auto simp: tool_isTransactionDone_def tool_runToolSlice_def split: nat.splits)

declare tool_pump.simps [simp del]

text \<open>The loops \<^verbatim>\<open>for (int i = k; i < p.getLength(); i++) out.append8(p.read8(i))\<close>.\<close>

function append_packet :: "nat \<Rightarrow> nat \<Rightarrow> InPacket \<Rightarrow> OutPacket \<Rightarrow> OutPacket" where
  "append_packet i n p out =
     (if i < n then append_packet (i + 1) n p (append8 (read8 p i) out) else out)"
  by pat_completeness auto
termination
  by (relation "measure (\<lambda>(i, n, p, out). n - i)") auto

declare append_packet.simps [simp del]

text \<open>What follows the lock in both \<^verbatim>\<open>doToolPause\<close> and \<^verbatim>\<open>handleToolQuery\<close>: the
  transaction with the payload \<open>out\<close>, and the copy of the answer into the reply.\<close>

definition tool_exchange :: "OutPacket \<Rightarrow> OutPacket \<Rightarrow> Host \<Rightarrow> OutPacket \<times> Host" where
  "tool_exchange out to_host s =
     (let ch = tool_pump (tool_releaseLock (tool_startTransaction ((tool s)\<lparr>tool_out := out\<rparr>)));
          s1 = s\<lparr>tool := ch\<rparr>
      in if getErrorCode (tool_in ch) = PACKET_TIMEOUT
         then (append8 RC_DOWNSTREAM_TIMEOUT to_host, s1)
         else (append_packet 0 (unat (getLength (tool_in ch))) (tool_in ch) to_host, s1))"

definition doToolPause :: "nat \<Rightarrow> OutPacket \<Rightarrow> Host \<Rightarrow> (OutPacket \<times> Host) option" where
  "doToolPause fuel to_host s =
     (case acquire_lock fuel
             (Timeout_start (micros s) HOST_TOOL_RESPONSE_TIMEOUT_MICROS Timeout_new) s of
        None \<Rightarrow> None
      | Some (got, s1) \<Rightarrow>
          if \<not> got
          then Some (append8 RC_DOWNSTREAM_TIMEOUT to_host,
                     indicateError ERR_SLAVE_LOCK_TIMEOUT s1)
          else Some (tool_exchange
                       (append8 SLAVE_CMD_PAUSE_UNPAUSE (append8 (tool_index (tool s1)) []))
                       to_host s1))"

definition handleToolQuery :: "nat \<Rightarrow> InPacket \<Rightarrow> OutPacket \<Rightarrow> Host \<Rightarrow> (OutPacket \<times> Host) option" where
  "handleToolQuery fuel from_host to_host s =
     (if unat (getLength from_host) < 2
      then Some (append8 RC_PACKET_ERROR to_host, indicateError ERR_HOST_TRUNCATED_CMD s)
      else (case acquire_lock fuel
                   (Timeout_start (micros s) HOST_TOOL_RESPONSE_TIMEOUT_MICROS Timeout_new) s of
              None \<Rightarrow> None
            | Some (got, s1) \<Rightarrow>
                if \<not> got
                then Some (append8 RC_DOWNSTREAM_TIMEOUT to_host,
                           indicateError ERR_SLAVE_LOCK_TIMEOUT s1)
                else Some (tool_exchange
                             (append_packet 1 (unat (getLength from_host)) from_host [])
                             to_host s1)))"

definition handlePause :: "nat \<Rightarrow> InPacket \<Rightarrow> OutPacket \<Rightarrow> Host \<Rightarrow> (OutPacket \<times> Host) option" where
  "handlePause fuel from_host to_host s =
     (if \<not> command_pauseIntermediateState s
      then (case doToolPause fuel to_host
                   (pauseBuild (\<not> command_isPaused s) (PAUSE_EXT_OFF OR PAUSE_HBP_OFF) s) of
              None \<Rightarrow> None
            | Some (o1, s1) \<Rightarrow> Some (append8 RC_OK o1, s1))
      else Some (append8 RC_OK to_host, s))"

subsection \<open>The query dispatcher\<close>

text \<open>
  The case \<^verbatim>\<open>HOST_CMD_CLEAR_BUFFER\<close>, \<^verbatim>\<open>HOST_CMD_ABORT\<close>, \<^verbatim>\<open>HOST_CMD_RESET\<close> of the
  dispatcher. The filament counter (\<^verbatim>\<open>HAS_FILAMENT_COUNTER\<close>) is a build option whose
  state is outside the model.
\<close>

definition query_reset :: "OutPacket \<Rightarrow> Host \<Rightarrow> OutPacket \<times> Host" where
  "query_reset to_host s =
     (let (resetMe, s1) =
            (if currentState s = HOST_STATE_BUILDING \<or>
                currentState s = HOST_STATE_BUILDING_FROM_SD
             then (let (r, s0) =
                         (if 1 = getEeprom8 CLEAR_FOR_ESTOP 0 s
                          then (False, stopBuild (s\<lparr>buildState := BUILD_CANCELED\<rparr>))
                          else (True, s))
                   in (r, indicateError ERR_RESET_DURING_BUILD s0))
             else (True, s));
          s2 = (if resetMe
                then s1\<lparr>do_host_reset := True,
                       do_host_reset_timeout :=
                         Timeout_start (micros s1) 200000 (do_host_reset_timeout s1)\<rparr>
                else s1)
      in (append8 RC_OK to_host, s2))"

text \<open>
  \<^verbatim>\<open>processQueryPacket\<close>: whether the packet was handled, the reply and the state;
  \<open>None\<close> only when a tool transaction's lock loop exceeds the bound \<open>fuel\<close>.
\<close>

definition handled :: "OutPacket \<times> Host \<Rightarrow> (bool \<times> OutPacket \<times> Host) option" where
  "handled r = Some (True, fst r, snd r)"

definition processQueryPacket ::
  "nat \<Rightarrow> InPacket \<Rightarrow> OutPacket \<Rightarrow> Host \<Rightarrow> (bool \<times> OutPacket \<times> Host) option" where
  "processQueryPacket fuel from_host to_host s =
     (if 1 \<le> unat (getLength from_host)
      then (let command = read8 from_host 0 in
        if command AND 0x80 = 0
        then (if command = HOST_CMD_VERSION then handled (handleVersion from_host to_host s)
          else if command = HOST_CMD_GET_BUILD_NAME
            then handled (handleGetBuildName from_host to_host s)
          else if command = HOST_CMD_INIT then handled (append8 RC_OK to_host, s)
          else if command = HOST_CMD_CLEAR_BUFFER \<or> command = HOST_CMD_ABORT \<or>
                  command = HOST_CMD_RESET
            then handled (query_reset to_host s)
          else if command = HOST_CMD_GET_BUFFER_SIZE
            then handled (handleGetBufferSize from_host to_host s)
          else if command = HOST_CMD_GET_POSITION
            then handled (handleGetPosition from_host to_host s)
          else if command = HOST_CMD_GET_POSITION_EXT
            then handled (handleGetPositionExt from_host to_host s)
          else if command = HOST_CMD_CAPTURE_TO_FILE
            then handled (handleCaptureToFile from_host to_host s)
          else if command = HOST_CMD_END_CAPTURE
            then handled (handleEndCapture from_host to_host s)
          else if command = HOST_CMD_PLAYBACK_CAPTURE
            then handled (handlePlayback from_host to_host s)
          else if command = HOST_CMD_NEXT_FILENAME
            then handled (handleNextFilename from_host to_host s)
          else if command = HOST_CMD_PAUSE
            then (case handlePause fuel from_host to_host s of
                    None \<Rightarrow> None | Some r \<Rightarrow> handled r)
          else if command = HOST_CMD_TOOL_QUERY
            then (case handleToolQuery fuel from_host to_host s of
                    None \<Rightarrow> None | Some r \<Rightarrow> handled r)
          else if command = HOST_CMD_IS_FINISHED
            then handled (handleIsFinished from_host to_host s)
          else if command = HOST_CMD_READ_EEPROM
            then handled (handleReadEeprom from_host to_host s)
          else if command = HOST_CMD_WRITE_EEPROM
            then handled (handleWriteEeprom from_host to_host s)
          else if command = HOST_CMD_EXTENDED_STOP
            then handled (handleExtendedStop from_host to_host s)
          else if command = HOST_CMD_BOARD_STATUS
            then handled (handleGetBoardStatus to_host s)
          else if command = HOST_CMD_GET_BUILD_STATS
            then handled (handleGetBuildStats to_host s)
          else if command = HOST_CMD_ADVANCED_VERSION
            then handled (handleGetAdvancedVersion from_host to_host s)
          else Some (False, to_host, s))
        else Some (False, to_host, s))
      else Some (False, to_host, s))"

subsection \<open>The tick\<close>

text \<open>The part of \<^verbatim>\<open>runHostSlice\<close> that answers a transport error.\<close>

definition report_error :: "Host \<Rightarrow> Host" where
  "report_error s =
     (let code = (case getErrorCode (uart_in s) of
                    PACKET_TIMEOUT \<Rightarrow> RC_PACKET_TIMEOUT
                  | BAD_CRC \<Rightarrow> RC_CRC_MISMATCH
                  | EXCEEDED_MAX_LENGTH \<Rightarrow> RC_PACKET_LENGTH
                  | _ \<Rightarrow> RC_PACKET_ERROR)
      in indicateError ERR_HOST_PACKET_MISC
           (s\<lparr>packet_in_timeout := Timeout_abort (packet_in_timeout s),
              uart_out := append8 code [],
              uart_in := InPacket_reset (uart_in s),
              uart_sending := True\<rparr>))"

text \<open>The part that answers a finished packet: the pending cancel notification first,
  then the action packets, then the queries, then "unsupported". The debug packets
  of the build option \<^verbatim>\<open>HONOR_DEBUG_PACKETS\<close> are outside the model.\<close>

definition dispatch_packet :: "nat \<Rightarrow> Host \<Rightarrow> Host option" where
  "dispatch_packet fuel s =
     (let s1 = s\<lparr>packet_in_timeout := Timeout_abort (packet_in_timeout s), uart_out := []\<rparr>;
          from_host = uart_in s1;
          r = (if cancelBuild s1
               then Some (append8 RC_CANCEL_BUILD [],
                          indicateError ERR_CANCEL_BUILD (s1\<lparr>cancelBuild := False\<rparr>))
               else (case processCommandPacket from_host [] s1 of (done, o1, s2) \<Rightarrow>
                 if done then Some (o1, s2)
                 else (case processQueryPacket fuel from_host o1 s2 of
                         None \<Rightarrow> None
                       | Some (done2, o2, s3) \<Rightarrow>
                           if done2 then Some (o2, s3)
                           else Some (append8 RC_CMD_UNSUPPORTED o2, s3))))
      in case r of
           None \<Rightarrow> None
         | Some (out, s4) \<Rightarrow>
             Some (s4\<lparr>uart_out := out, uart_in := InPacket_reset (uart_in s4),
                      uart_sending := True\<rparr>))"

text \<open>The deferred reset itself: the body of the second \<^verbatim>\<open>if\<close> of \<^verbatim>\<open>runHostSlice\<close>.\<close>

definition perform_reset :: "Host \<Rightarrow> Host" where
  "perform_reset s =
     (let s1 = (if buildState s = BUILD_RUNNING \<or> buildState s = BUILD_PAUSED
                then stopBuild s else s);
          s2 = s1\<lparr>do_host_reset := False\<rparr>;
          s3 = reset (hard_reset s2) s2
      in s3\<lparr>hard_reset := False,
            packet_in_timeout := Timeout_abort (packet_in_timeout s3),
            machineName := (machineName s3)[0 := 0],
            buildName := (buildName s3)[0 := 0],
            currentState := HOST_STATE_READY\<rparr>)"

text \<open>
  The two conditions at the head of \<^verbatim>\<open>runHostSlice\<close>, with C++'s left-to-right
  evaluation: a timeout is polled (and may latch) only when the flags before it let
  the evaluation reach it.
\<close>

definition hold_for_reply :: "Host \<Rightarrow> bool \<times> Host" where
  "hold_for_reply s =
     (if uart_sending s
      then (if \<not> do_host_reset s then (True, s)
            else (case Timeout_hasElapsed (micros s) (do_host_reset_timeout s) of (e, t) \<Rightarrow>
                    (\<not> e, s\<lparr>do_host_reset_timeout := t\<rparr>)))
      else (False, s))"

definition reset_due :: "Host \<Rightarrow> bool \<times> Host" where
  "reset_due s =
     (if do_host_reset s
      then (if \<not> cancelBuild s then (True, s)
            else (case Timeout_hasElapsed (micros s) (cancel_timeout s) of (e, t) \<Rightarrow>
                    (e, s\<lparr>cancel_timeout := t\<rparr>)))
      else (False, s))"

definition watch_packet :: "Host \<Rightarrow> Host" where
  "watch_packet s =
     (if isStarted (uart_in s) \<and> \<not> isFinished (uart_in s)
      then (if \<not> Timeout_isActive (packet_in_timeout s)
            then s\<lparr>packet_in_timeout :=
                     Timeout_start (micros s) HOST_PACKET_TIMEOUT_MICROS (packet_in_timeout s)\<rparr>
            else (case Timeout_hasElapsed (micros s) (packet_in_timeout s) of (e, t) \<Rightarrow>
                    if e then s\<lparr>packet_in_timeout := t, uart_in := InPacket_timeout (uart_in s)\<rparr>
                    else s\<lparr>packet_in_timeout := t\<rparr>))
      else s)"

definition finish_slice :: "Host \<Rightarrow> Host" where
  "finish_slice s =
     managePrintTime
       (if currentState s = HOST_STATE_BUILDING_FROM_SD \<and> \<not> sdcard_isPlaying s
        then s\<lparr>currentState := HOST_STATE_READY\<rparr> else s)"

definition runHostSlice :: "nat \<Rightarrow> Host \<Rightarrow> Host option" where
  "runHostSlice fuel s =
     (let s1 = (if buildState s = BUILD_CANCELLING \<and> command_pauseState s = PAUSE_STATE_PAUSED
                then stopBuildNow s else s)
      in case hold_for_reply s1 of (hold, s2) \<Rightarrow>
        if hold then Some s2
        else (case reset_due s2 of (due, s3) \<Rightarrow>
          if due then Some (perform_reset s3)
          else (let s4 = watch_packet s3 in
            if hasError (uart_in s4) then Some (finish_slice (report_error s4))
            else if isFinished (uart_in s4)
            then (case dispatch_packet fuel s4 of
                    None \<Rightarrow> None
                  | Some s5 \<Rightarrow> Some (finish_slice s5))
            else Some (finish_slice s4))))"

subsection \<open>An example state\<close>

text \<open>
  The state after power-on, as the initialisers of \<^verbatim>\<open>Host.cc\<close> give it, on a board whose
  sizes and version numbers are example values: a 512-byte command queue, 31-byte file
  names, erased persistent memory, five axes, an idle tool channel whose tool answers
  a transaction at once with the single byte OK.
\<close>

definition empty_packet :: InPacket where
  "empty_packet = \<lparr>pkt_length = 0, pkt_payload = replicate 32 0, pkt_state = PS_START,
     pkt_error = NO_ERROR\<rparr>"

definition finished_packet :: "u8 list \<Rightarrow> InPacket" where
  "finished_packet bytes = \<lparr>pkt_length = of_nat (length bytes), pkt_payload = bytes,
     pkt_state = PS_LAST, pkt_error = NO_ERROR\<rparr>"

definition example_tool :: ToolChannel where
  "example_tool = \<lparr>tool_locked = False, tool_transaction_done = True, tool_out = [],
     tool_in = empty_packet, tool_index = 0, tool_slices_left = 0,
     tool_reply = finished_packet [RC_OK], tool_lock_attempts = 0\<rparr>"

definition example_host :: Host where
  "example_host = \<lparr>
     packet_in_timeout = Timeout_new, cancel_timeout = Timeout_new,
     do_host_reset_timeout = Timeout_new,
     machineName = replicate 17 0, buildName = replicate 31 0,
     currentState = HOST_STATE_READY, buildState = BUILD_NONE,
     last_print_hours = 0, last_print_minutes = 0, last_print_line = 0,
     print_time_hours = 0, print_time = Timeout_new,
     do_host_reset = False, hard_reset = False, cancelBuild = False,
     micros = 0, poll_micros = 1000, current_seconds = 0, board_errors = [], resets = [],
     uart_in = empty_packet, uart_out = [], uart_sending = False,
     command_buffer = \<lparr>buf_data = [], buf_size = 512, buf_overflow = False,
                         buf_underflow = False\<rparr>,
     paused = PAUSE_STATE_NONE, pauseHeaterControl = 0, line_number = 0,
     copiesToPrint = 0, copiesPrinted = 0,
     steppers_running = False, stepper_position = [0, 0, 0, 0, 0], endstop_status = 0,
     sd_capturing = False, sd_playing = False, sd_captured = [],
     tool = example_tool, eeprom = (\<lambda>a. 0xFF),
     firmware_version = 407, internal_version = 0, software_variant_id = 0x80,
     sd_result = SD_SUCCESS, sd_directory = []\<rparr>"

subsection \<open>Requests as the host sends them\<close>

text \<open>A 16-bit value on the wire, low byte first, and the VERSION request that carries
  the host's version.\<close>

definition le16 :: "u16 \<Rightarrow> u8 list" where
  "le16 v = [ucast v, ucast (drop_bit 8 v)]"

definition version_request :: "u16 \<Rightarrow> InPacket" where
  "version_request v = finished_packet (HOST_CMD_VERSION # le16 v)"

text \<open>The requests that write and read the persistent memory: opcode, offset, length,
  and for a write the data.\<close>

definition write_eeprom_request :: "u16 \<Rightarrow> u8 list \<Rightarrow> InPacket" where
  "write_eeprom_request offset data =
     finished_packet (HOST_CMD_WRITE_EEPROM # le16 offset @ [of_nat (length data)] @ data)"

definition read_eeprom_request :: "u16 \<Rightarrow> u8 \<Rightarrow> InPacket" where
  "read_eeprom_request offset len = finished_packet (HOST_CMD_READ_EEPROM # le16 offset @ [len])"

text \<open>The example board with a tool link whose transaction ends in the driver's
  packet timeout.\<close>

definition timed_out_tool_host :: Host where
  "timed_out_tool_host =
     example_host\<lparr>tool := example_tool\<lparr>tool_reply := empty_packet\<lparr>pkt_error := PACKET_TIMEOUT\<rparr>\<rparr>\<rparr>"

text \<open>
  The example board after a canceled host build: a reset and a cancel notification are
  both pending, the cancel grace timeout (one second) and the reset guard were armed at
  time 0, and the clock reads \<open>now\<close>.
\<close>

definition cancel_pending_host :: "u32 \<Rightarrow> Host" where
  "cancel_pending_host now =
     example_host\<lparr>currentState := HOST_STATE_CANCEL_BUILD, buildState := BUILD_CANCELED,
                  do_host_reset := True, cancelBuild := True,
                  cancel_timeout := Timeout_start 0 1000000 Timeout_new,
                  do_host_reset_timeout := Timeout_start 0 200000 Timeout_new,
                  micros := now\<rparr>"

text \<open>The example board in the middle of a host-streamed build, with the persistent
  memory still erased, and the example board with the tool lock held.\<close>

definition building_host :: Host where
  "building_host = example_host\<lparr>currentState := HOST_STATE_BUILDING, buildState := BUILD_RUNNING\<rparr>"

definition locked_tool_host :: Host where
  "locked_tool_host = example_host\<lparr>tool := example_tool\<lparr>tool_locked := True\<rparr>\<rparr>"

section \<open>Properties\<close>

subsection \<open>Action packets are queued whole or not at all\<close>

lemma push_packet_fits:
  "i \<le> n \<Longrightarrow> n \<le> length (pkt_payload p) \<Longrightarrow>
   n - i \<le> command_getRemainingCapacity s \<Longrightarrow>
   push_packet i n p s =
     s\<lparr>command_buffer := (command_buffer s)
         \<lparr>buf_data := buf_data (command_buffer s) @ drop i (take n (pkt_payload p))\<rparr>\<rparr>"
proof (induction i n p s rule: push_packet.induct)
  case (1 i n p s)
  show ?case
  proof (cases "i < n")
    case False
    with "1.prems" show ?thesis by (subst push_packet.simps) simp
  next
    case True
    let ?s' = "command_push (read8 p i) s"
    have room: "length (buf_data (command_buffer s)) < buf_size (command_buffer s)"
      using True "1.prems"
      by (simp add: command_getRemainingCapacity_def buf_getRemainingCapacity_def)
    have s': "?s' = s\<lparr>command_buffer := (command_buffer s)
         \<lparr>buf_data := buf_data (command_buffer s) @ [pkt_payload p ! i]\<rparr>\<rparr>"
      using room True "1.prems" by (simp add: command_push_def buf_push_def read8_def)
    have cap: "n - (i + 1) \<le> command_getRemainingCapacity ?s'"
      using room True "1.prems" unfolding s'
      by (simp add: command_getRemainingCapacity_def buf_getRemainingCapacity_def)
    have "push_packet i n p s = push_packet (i + 1) n p ?s'"
      using True by (subst push_packet.simps) simp
    also have "\<dots> = ?s'\<lparr>command_buffer := (command_buffer ?s')
         \<lparr>buf_data := buf_data (command_buffer ?s') @ drop (i + 1) (take n (pkt_payload p))\<rparr>\<rparr>"
      using "1.IH"[OF True _ _ cap] True "1.prems" by simp
    also have "\<dots> = s\<lparr>command_buffer := (command_buffer s)
         \<lparr>buf_data := buf_data (command_buffer s) @ drop i (take n (pkt_payload p))\<rparr>\<rparr>"
    proof -
      have "drop i (take n (pkt_payload p)) =
              pkt_payload p ! i # drop (i + 1) (take n (pkt_payload p))"
        using True "1.prems" by (simp add: Cons_nth_drop_Suc[symmetric])
      then show ?thesis unfolding s' by simp
    qed
    finally show ?thesis .
  qed
qed

text \<open>
  C1. A packet that holds at least its opcode, whose opcode has the high bit set and
  whose bytes lie within its buffer, arrives while the storage card is neither
  capturing nor playing. Then \<^verbatim>\<open>processCommandPacket\<close> handles it. If the
  remaining capacity of the command queue is at least the packet length, the reply is
  OK and the queue holds its old content followed by every byte of the packet in order,
  the rest of the state being as before; otherwise the reply is buffer-overflow and
  the state, the queue included, is unchanged.
\<close>

theorem processCommandPacket_all_or_nothing:
  assumes "1 \<le> unat (getLength p)"
    and "read8 p 0 AND 0x80 \<noteq> 0"
    and "unat (getLength p) \<le> length (pkt_payload p)"
    and "\<not> sdcard_isCapturing s"
    and "\<not> sdcard_isPlaying s"
  shows "processCommandPacket p to_host s =
    (if unat (getLength p) \<le> command_getRemainingCapacity s
     then (True, to_host @ [RC_OK],
           s\<lparr>command_buffer := (command_buffer s)
               \<lparr>buf_data := buf_data (command_buffer s) @
                              take (unat (getLength p)) (pkt_payload p)\<rparr>\<rparr>)
     else (True, to_host @ [RC_BUFFER_OVERFLOW], s))"
proof (cases "unat (getLength p) \<le> command_getRemainingCapacity s")
  case True
  have "push_packet 0 (unat (getLength p)) p s =
      s\<lparr>command_buffer := (command_buffer s)
         \<lparr>buf_data := buf_data (command_buffer s) @
                        drop 0 (take (unat (getLength p)) (pkt_payload p))\<rparr>\<rparr>"
    using assms(3) True by (intro push_packet_fits) simp_all
  with True assms show ?thesis
    by (simp add: processCommandPacket_def append8_def)
next
  case False
  with assms show ?thesis
    by (simp add: processCommandPacket_def append8_def)
qed

theorem processCommandPacket_all_or_nothing_witness:
  "processCommandPacket (finished_packet [0x81, 7, 9]) [] example_host =
     (True, [RC_OK],
      example_host\<lparr>command_buffer := (command_buffer example_host)
                                       \<lparr>buf_data := [0x81, 7, 9]\<rparr>\<rparr>) \<and>
   processCommandPacket (finished_packet [0x81, 7, 9]) []
       (example_host\<lparr>command_buffer := (command_buffer example_host)\<lparr>buf_size := 2\<rparr>\<rparr>) =
     (True, [RC_BUFFER_OVERFLOW],
      example_host\<lparr>command_buffer := (command_buffer example_host)\<lparr>buf_size := 2\<rparr>\<rparr>)"
  using processCommandPacket_all_or_nothing
          [of "finished_packet [0x81, 7, 9]" example_host "[]"]
        processCommandPacket_all_or_nothing
          [of "finished_packet [0x81, 7, 9]"
              "example_host\<lparr>command_buffer := (command_buffer example_host)\<lparr>buf_size := 2\<rparr>\<rparr>"
              "[]"]
  by (simp add: finished_packet_def example_host_def getLength_def read8_def
        sdcard_isCapturing_def sdcard_isPlaying_def command_getRemainingCapacity_def
        buf_getRemainingCapacity_def)

subsection \<open>The version query\<close>

lemma le16_join:
  "ucast (ucast v :: u8) OR push_bit 8 (ucast (ucast (drop_bit 8 v) :: u8)) = (v :: u16)"
  by (rule bit_word_eqI) (auto simp: bit_simps)

lemma read16_version_request: "read16 (version_request v) (Suc 0) = v"
  by (simp add: read16_def read8_def version_request_def finished_packet_def le16_def le16_join)

lemma version_request_head:
  "unat (getLength (version_request v)) = 3"
  "read8 (version_request v) 0 = 0"
  by (simp_all add: version_request_def finished_packet_def getLength_def read8_def
        HOST_CMD_VERSION_def le16_def)

lemma small_sint: "uint (v :: u16) < 39 \<Longrightarrow> sint v < 39"
proof -
  assume a: "uint v < 39"
  have "sint v = signed_take_bit 15 (uint v)" by (simp add: sint_uint)
  also have "\<dots> = uint v"
  proof (rule signed_take_bit_int_eq_self)
    have "- (2 ^ 15) \<le> (0::int)" by simp
    also have "0 \<le> uint v" by simp
    finally show "- (2 ^ 15) \<le> uint v" .
    show "uint v < 2 ^ 15" using a by simp
  qed
  finally show ?thesis using a by simp
qed

lemma handleVersion_request:
  "handleVersion (version_request v) to_host s =
     (to_host @ RC_OK # le16 (if v \<noteq> 29 \<and> sint v < 39 then 0 else firmware_version s), s)"
  by (simp add: handleVersion_def read16_version_request append16_def append8_def le16_def)

lemma query_version:
  "processQueryPacket fuel (version_request v) to_host s =
     Some (True,
           to_host @ RC_OK # le16 (if v \<noteq> 29 \<and> sint v < 39 then 0 else firmware_version s),
           s)"
  unfolding processQueryPacket_def
  by (simp add: version_request_head HOST_CMD_VERSION_def handled_def handleVersion_request)

text \<open>
  C3, as the code has it. The dispatcher answers a VERSION request carrying 29 with OK
  and the firmware version (29 is the version the handler lets through), a request
  carrying 38 with OK and 0x0000, and a request carrying 39 with OK and the firmware
  version. The state is unchanged.
\<close>

theorem version_scenarios:
  "processQueryPacket fuel (version_request 29) [] s =
     Some (True, RC_OK # le16 (firmware_version s), s) \<and>
   processQueryPacket fuel (version_request 38) [] s = Some (True, [RC_OK, 0x00, 0x00], s) \<and>
   processQueryPacket fuel (version_request 39) [] s =
     Some (True, RC_OK # le16 (firmware_version s), s)"
  by (simp add: query_version) (simp add: le16_def)

text \<open>
  C3, as stated, fails for the value 29: on a board with firmware version 407 the reply
  is not OK followed by 0x0000.
\<close>

theorem version_29_counterexample:
  "processQueryPacket 1 (version_request 29) [] example_host \<noteq>
     Some (True, [RC_OK, 0x00, 0x00], example_host)"
  by (simp add: query_version le16_def) (simp add: example_host_def)

text \<open>
  C4. \<^verbatim>\<open>handleVersion\<close> replies OK and version 0 to every host version other than 29
  that is below 39, whether the 16 bits are read as unsigned or, as the handler reads
  them, as signed; it replies OK and the firmware version to 29, exactly as it does to
  every version that is at least 39.
\<close>

theorem handleVersion_minimum:
  "(v \<noteq> 29 \<and> (uint v < 39 \<or> sint v < 39) \<longrightarrow>
      handleVersion (version_request v) to_host s = (to_host @ [RC_OK, 0x00, 0x00], s)) \<and>
   handleVersion (version_request 29) to_host s =
      (to_host @ RC_OK # le16 (firmware_version s), s) \<and>
   (39 \<le> sint v \<longrightarrow>
      handleVersion (version_request v) to_host s =
        (to_host @ RC_OK # le16 (firmware_version s), s))"
  using small_sint[of v] by (auto simp: handleVersion_request le16_def)

theorem handleVersion_minimum_witness:
  "handleVersion (version_request 38) [] example_host = ([RC_OK, 0x00, 0x00], example_host) \<and>
   handleVersion (version_request 0xFFFF) [] example_host = ([RC_OK, 0x00, 0x00], example_host) \<and>
   handleVersion (version_request 29) [] example_host = ([RC_OK, 0x97, 0x01], example_host) \<and>
   handleVersion (version_request 39) [] example_host = ([RC_OK, 0x97, 0x01], example_host)"
  using handleVersion_minimum[of 38 "[]" example_host]
        handleVersion_minimum[of "0xFFFF" "[]" example_host]
        handleVersion_minimum[of 39 "[]" example_host]
  by (simp add: le16_def) (simp add: example_host_def)

subsection \<open>Writing and reading the persistent memory\<close>

lemma length_eeprom_read_block [simp]: "length (eeprom_read_block m a n) = n"
  by (induction n arbitrary: a) simp_all

lemma eeprom_write_block_other:
  "(\<And>k. k < length bs \<Longrightarrow> a + of_nat k \<noteq> x) \<Longrightarrow> eeprom_write_block bs a m x = m x"
proof (induction bs arbitrary: a m)
  case Nil
  then show ?case by simp
next
  case (Cons b bs)
  have "a \<noteq> x" using Cons.prems[of 0] by simp
  moreover have "eeprom_write_block bs (a + 1) (m(a := b)) x = (m(a := b)) x"
  proof (rule Cons.IH)
    fix k assume "k < length bs"
    then show "a + 1 + of_nat k \<noteq> x" using Cons.prems[of "Suc k"] by (simp add: add.assoc)
  qed
  ultimately show ?case by simp
qed

lemma of_nat_neq_0_u16: "0 < k \<Longrightarrow> k < 65536 \<Longrightarrow> (of_nat k :: u16) \<noteq> 0"
proof
  assume k: "0 < k" "k < 65536" and z: "(of_nat k :: u16) = 0"
  from z have "2 ^ 16 dvd k" by (simp add: word_of_nat_eq_0_iff)
  then have "2 ^ 16 \<le> k" using k(1) by (rule dvd_imp_le)
  then show False using k(2) by simp
qed

lemma eeprom_read_write:
  "length bs \<le> 65536 \<Longrightarrow>
   eeprom_read_block (eeprom_write_block bs a m) a (length bs) = bs"
proof (induction bs arbitrary: a m)
  case Nil
  then show ?case by simp
next
  case (Cons b bs)
  have "eeprom_write_block bs (a + 1) (m(a := b)) a = (m(a := b)) a"
  proof (rule eeprom_write_block_other)
    fix k assume k: "k < length bs"
    have "(of_nat (Suc k) :: u16) \<noteq> 0"
      using k Cons.prems by (intro of_nat_neq_0_u16) simp_all
    then show "a + 1 + of_nat k \<noteq> a" by (simp add: add.assoc)
  qed
  then show ?case using Cons by simp
qed

lemma fill_data_eq:
  "i \<le> n \<Longrightarrow> n \<le> length d \<Longrightarrow>
   fill_data i n p d = take i d @ map (\<lambda>k. read8 p (k + 4)) [i..<n] @ drop n d"
proof (induction i n p d rule: fill_data.induct)
  case (1 i n p d)
  show ?case
  proof (cases "i < n")
    case False
    with "1.prems" show ?thesis by (subst fill_data.simps) simp
  next
    case True
    have "fill_data i n p d = fill_data (i + 1) n p (d[i := read8 p (i + 4)])"
      using True by (subst fill_data.simps) simp
    also have "\<dots> = take (i + 1) (d[i := read8 p (i + 4)]) @
        map (\<lambda>k. read8 p (k + 4)) [i + 1..<n] @ drop n (d[i := read8 p (i + 4)])"
      using True "1.prems" by (intro "1.IH") simp_all
    also have "\<dots> = take i d @ map (\<lambda>k. read8 p (k + 4)) [i..<n] @ drop n d"
      using True "1.prems" by (simp add: take_Suc_conv_app_nth upt_conv_Cons)
    finally show ?thesis .
  qed
qed

lemma append_data_eq:
  "i \<le> n \<Longrightarrow> n \<le> length d \<Longrightarrow> append_data i n d out = out @ drop i (take n d)"
proof (induction i n d out rule: append_data.induct)
  case (1 i n d out)
  show ?case
  proof (cases "i < n")
    case False
    with "1.prems" show ?thesis by (subst append_data.simps) simp
  next
    case True
    have "append_data i n d out = append_data (i + 1) n d (append8 (d ! i) out)"
      using True by (subst append_data.simps) simp
    also have "\<dots> = append8 (d ! i) out @ drop (i + 1) (take n d)"
      using True "1.prems" by (intro "1.IH") simp_all
    also have "\<dots> = out @ drop i (take n d)"
      using True "1.prems" by (simp add: append8_def Cons_nth_drop_Suc[symmetric])
    finally show ?thesis .
  qed
qed

lemma read16_le16: "read16 (finished_packet (c # le16 v @ rest)) (Suc 0) = v"
  by (simp add: read16_def read8_def finished_packet_def le16_def le16_join)

lemma unat_len_u8: "n \<le> 255 \<Longrightarrow> unat (of_nat n :: u8) = n"
  by (simp add: unat_of_nat)

lemma getLength_finished:
  "length bytes \<le> 255 \<Longrightarrow> unat (getLength (finished_packet bytes)) = length bytes"
  unfolding finished_packet_def getLength_def by (simp add: unat_of_nat)

lemma write_eeprom_request_fields:
  assumes "length data + 4 \<le> 255"
  shows "unat (getLength (write_eeprom_request offset data)) = length data + 4"
    and "read8 (write_eeprom_request offset data) 0 = HOST_CMD_WRITE_EEPROM"
    and "read16 (write_eeprom_request offset data) (Suc 0) = offset"
    and "read8 (write_eeprom_request offset data) 3 = of_nat (length data)"
    and "k < length data \<Longrightarrow> read8 (write_eeprom_request offset data) (k + 4) = data ! k"
proof -
  show "unat (getLength (write_eeprom_request offset data)) = length data + 4"
    unfolding write_eeprom_request_def
    using assms by (subst getLength_finished) (simp_all add: le16_def)
  show "read8 (write_eeprom_request offset data) 0 = HOST_CMD_WRITE_EEPROM"
    by (simp add: write_eeprom_request_def finished_packet_def read8_def)
  show "read16 (write_eeprom_request offset data) (Suc 0) = offset"
    unfolding write_eeprom_request_def by (rule read16_le16)
  show "read8 (write_eeprom_request offset data) 3 = of_nat (length data)"
    by (simp add: write_eeprom_request_def finished_packet_def read8_def le16_def)
  show "read8 (write_eeprom_request offset data) (k + 4) = data ! k" if "k < length data"
    using that
    by (simp add: write_eeprom_request_def finished_packet_def read8_def le16_def nth_Cons'
          nth_append)
qed

lemma handleWriteEeprom_request:
  assumes "length data + 4 \<le> 255"
  shows "handleWriteEeprom (write_eeprom_request offset data) to_host s =
     (to_host @ [RC_OK, of_nat (length data)],
      s\<lparr>eeprom := eeprom_write_block data offset (eeprom s)\<rparr>)"
proof -
  let ?p = "write_eeprom_request offset data"
  have n: "unat (of_nat (length data) :: u8) = length data"
    using assms by (intro unat_len_u8) simp
  have "fill_data 0 (length data) ?p (eeprom_read_block (eeprom s) offset (length data)) =
          map (\<lambda>k. read8 ?p (k + 4)) [0..<length data]"
    by (subst fill_data_eq) simp_all
  also have "\<dots> = map (\<lambda>k. data ! k) [0..<length data]"
    using write_eeprom_request_fields(5)[OF assms] by (intro map_cong) simp_all
  also have "\<dots> = data" by (rule map_nth)
  finally show ?thesis
    by (simp add: handleWriteEeprom_def write_eeprom_request_fields[OF assms] n append8_def)
qed

lemma handleReadEeprom_request:
  "handleReadEeprom (read_eeprom_request offset len) to_host s =
     (to_host @ RC_OK # eeprom_read_block (eeprom s) offset (unat len), s)"
proof -
  have "read16 (read_eeprom_request offset len) (Suc 0) = offset"
    unfolding read_eeprom_request_def by (rule read16_le16)
  moreover have "read8 (read_eeprom_request offset len) 3 = len"
    by (simp add: read_eeprom_request_def finished_packet_def read8_def le16_def)
  ultimately show ?thesis
    by (simp add: handleReadEeprom_def append_data_eq append8_def)
qed

lemma query_write_eeprom:
  assumes "length data + 4 \<le> 255"
  shows "processQueryPacket fuel (write_eeprom_request offset data) to_host s =
     Some (True, to_host @ [RC_OK, of_nat (length data)],
           s\<lparr>eeprom := eeprom_write_block data offset (eeprom s)\<rparr>)"
  unfolding processQueryPacket_def
  by (simp add: write_eeprom_request_fields[OF assms] handleWriteEeprom_request[OF assms]
        handled_def HOST_CMD_defs)

lemma query_read_eeprom:
  "processQueryPacket fuel (read_eeprom_request offset len) to_host s =
     Some (True, to_host @ RC_OK # eeprom_read_block (eeprom s) offset (unat len), s)"
proof -
  have "unat (getLength (read_eeprom_request offset len)) = 4"
    "read8 (read_eeprom_request offset len) 0 = HOST_CMD_READ_EEPROM"
    by (simp_all add: read_eeprom_request_def finished_packet_def getLength_def read8_def
          le16_def)
  then show ?thesis
    unfolding processQueryPacket_def
    by (simp add: handleReadEeprom_request handled_def HOST_CMD_defs)
qed

text \<open>
  C8. A WRITE_EEPROM request carries an offset and \<open>data\<close>; with its four header bytes
  it fits the 8-bit packet length. The dispatcher answers it with OK and the number of
  data bytes, and the only change of state is the block written to the persistent memory.
  A READ_EEPROM request for the same offset and length, handled next, is answered with
  OK followed by exactly \<open>data\<close>, and changes nothing.
\<close>

theorem eeprom_write_read_roundtrip:
  assumes "length data + 4 \<le> 255"
  shows "processQueryPacket fuel (write_eeprom_request offset data) [] s =
           Some (True, [RC_OK, of_nat (length data)],
                 s\<lparr>eeprom := eeprom_write_block data offset (eeprom s)\<rparr>) \<and>
         processQueryPacket fuel (read_eeprom_request offset (of_nat (length data))) []
             (s\<lparr>eeprom := eeprom_write_block data offset (eeprom s)\<rparr>) =
           Some (True, RC_OK # data, s\<lparr>eeprom := eeprom_write_block data offset (eeprom s)\<rparr>)"
proof -
  have n: "unat (of_nat (length data) :: u8) = length data"
    using assms by (intro unat_len_u8) simp
  have "eeprom_read_block (eeprom_write_block data offset (eeprom s)) offset (length data) = data"
    using assms by (intro eeprom_read_write) simp
  then show ?thesis
    using assms by (simp add: query_write_eeprom query_read_eeprom n)
qed

theorem eeprom_write_read_roundtrip_witness:
  "processQueryPacket 0 (write_eeprom_request 0x0120 [1, 2, 3]) [] example_host =
     Some (True, [RC_OK, 3],
           example_host\<lparr>eeprom := (eeprom example_host)(0x0120 := 1, 0x0121 := 2, 0x0122 := 3)\<rparr>) \<and>
   processQueryPacket 0 (read_eeprom_request 0x0120 3) []
       (example_host\<lparr>eeprom := (eeprom example_host)(0x0120 := 1, 0x0121 := 2, 0x0122 := 3)\<rparr>) =
     Some (True, [RC_OK, 1, 2, 3],
           example_host\<lparr>eeprom := (eeprom example_host)(0x0120 := 1, 0x0121 := 2, 0x0122 := 3)\<rparr>)"
  using eeprom_write_read_roundtrip[of "[1, 2, 3]" 0 "0x0120" example_host]
  by simp

subsection \<open>A truncated tool query\<close>

text \<open>
  C5. A TOOL_QUERY request of fewer than two bytes makes \<^verbatim>\<open>handleToolQuery\<close> return at
  once, whatever bound the lock loop is given (even none at all): the reply gains the
  byte packet-error, the truncated-command indicator is raised, and nothing else
  changes. The tool channel is as before: the lock, the count of lock attempts, the
  outbound and inbound packets and the transaction flag.
\<close>

theorem handleToolQuery_truncated:
  assumes "unat (getLength p) < 2"
  shows "\<exists>s'. handleToolQuery fuel p to_host s = Some (to_host @ [RC_PACKET_ERROR], s') \<and>
              s' = s\<lparr>board_errors := board_errors s @ [ERR_HOST_TRUNCATED_CMD]\<rparr> \<and>
              tool s' = tool s \<and>
              tool_lock_attempts (tool s') = tool_lock_attempts (tool s)"
  using assms by (simp add: handleToolQuery_def append8_def indicateError_def)

theorem handleToolQuery_truncated_witness:
  "handleToolQuery 0 (finished_packet [HOST_CMD_TOOL_QUERY]) [] example_host =
     Some ([RC_PACKET_ERROR], example_host\<lparr>board_errors := [ERR_HOST_TRUNCATED_CMD]\<rparr>)"
  using handleToolQuery_truncated
          [of "finished_packet [HOST_CMD_TOOL_QUERY]" 0 "[]" example_host]
  by (simp add: finished_packet_def getLength_def) (simp add: example_host_def)

subsection \<open>Pausing twice\<close>

text \<open>
  C7. A second \<^verbatim>\<open>pauseBuild(true, _)\<close> right after a first leaves the whole state as the
  first call left it, and with it the build state, the pause state of the command
  queue and the print timer. More generally a call made while the queue is paused or
  in a pause or unpause transition changes nothing, and neither does a call that
  asks for the pause state the queue is already in.
\<close>

theorem pauseBuild_idempotent:
  "pauseBuild True h2 (pauseBuild True h1 s) = pauseBuild True h1 s \<and>
   (command_isPaused s \<or> command_pauseIntermediateState s \<longrightarrow> pauseBuild True h1 s = s) \<and>
   (command_isPaused s = pause \<longrightarrow> pauseBuild pause h1 s = s) \<and>
   (command_pauseIntermediateState s \<longrightarrow> pauseBuild pause h1 s = s)"
  by (cases "paused s"; cases pause)
     (simp_all add: pauseBuild_def command_isPaused_def command_pauseIntermediateState_def
        command_pause_def)

theorem pauseBuild_idempotent_witness:
  "pauseBuild True 3 (pauseBuild True 3 example_host) =
     example_host\<lparr>paused := PAUSE_STATE_ENTERING, pauseHeaterControl := 3,
                  buildState := BUILD_PAUSED,
                  print_time := Timeout_new\<lparr>is_paused := True\<rparr>\<rparr> \<and>
   pauseBuild True 3 (example_host\<lparr>paused := PAUSE_STATE_PAUSED\<rparr>) =
     example_host\<lparr>paused := PAUSE_STATE_PAUSED\<rparr> \<and>
   pauseBuild False 3 (example_host\<lparr>paused := PAUSE_STATE_ENTERING\<rparr>) =
     example_host\<lparr>paused := PAUSE_STATE_ENTERING\<rparr>"
  using pauseBuild_idempotent[of 3 3 example_host True]
        pauseBuild_idempotent[of 3 3 "example_host\<lparr>paused := PAUSE_STATE_PAUSED\<rparr>" True]
        pauseBuild_idempotent[of 3 3 "example_host\<lparr>paused := PAUSE_STATE_ENTERING\<rparr>" False]
  by (simp add: command_isPaused_def command_pauseIntermediateState_def)
     (simp add: pauseBuild_def command_isPaused_def command_pauseIntermediateState_def
        command_pause_def example_host_def Timeout_pause_def Timeout_new_def)

subsection \<open>The start of a build\<close>


subsection \<open>A reset request during a build\<close>

lemma query_reset_dispatch:
  assumes "command = HOST_CMD_RESET \<or> command = HOST_CMD_ABORT \<or> command = HOST_CMD_CLEAR_BUFFER"
    and "1 \<le> unat (getLength p)" and "read8 p 0 = command"
  shows "processQueryPacket fuel p to_host s =
           Some (True, fst (query_reset to_host s), snd (query_reset to_host s))"
  using assms unfolding processQueryPacket_def
  by (auto simp: handled_def HOST_CMD_defs)

lemma building_host_fields:
  "currentState building_host = HOST_STATE_BUILDING"
  "eeprom building_host = (\<lambda>a. 0xFF)"
  "paused building_host = PAUSE_STATE_NONE"
  "board_errors building_host = []"
  "micros building_host = 0"
  "do_host_reset_timeout building_host = Timeout_new"
  "\<not> do_host_reset building_host"
  by (simp_all add: building_host_def example_host_def)

text \<open>
  C2, as the code has it. A RESET, ABORT or CLEAR_BUFFER request arrives while the host
  state is BUILDING or BUILDING_FROM_SD. In every case the dispatcher replies OK and
  raises the reset-during-build indicator. What else it does is decided by the
  persistent setting \<^verbatim>\<open>CLEAR_FOR_ESTOP\<close>, read with default 0. For every value other
  than 1, the erased cell included, the request is not diverted: the deferred reset is
  armed at once and nothing else changes. Only when the setting reads 1 is the request
  diverted into \<^verbatim>\<open>stopBuild\<close>. Then, if the queue is paused or in a pause or unpause
  transition, \<^verbatim>\<open>stopBuild\<close> finalises at once through \<^verbatim>\<open>stopBuildNow\<close>, which arms
  the deferred reset and leaves the build state CANCELED; otherwise the build state
  becomes CANCELLING, motion is aborted, a pause is requested, and the reset flag and
  its timeout stay as they were.
\<close>

theorem reset_during_build_by_setting:
  assumes "command = HOST_CMD_RESET \<or> command = HOST_CMD_ABORT \<or> command = HOST_CMD_CLEAR_BUFFER"
    and "1 \<le> unat (getLength p)" and "read8 p 0 = command"
    and "currentState s = HOST_STATE_BUILDING \<or> currentState s = HOST_STATE_BUILDING_FROM_SD"
  shows "\<exists>s'. processQueryPacket fuel p to_host s = Some (True, to_host @ [RC_OK], s') \<and>
     board_errors s' = board_errors s @ [ERR_RESET_DURING_BUILD] \<and>
     (if getEeprom8 CLEAR_FOR_ESTOP 0 s \<noteq> 1
      then s' = s\<lparr>board_errors := board_errors s @ [ERR_RESET_DURING_BUILD],
                  do_host_reset := True,
                  do_host_reset_timeout :=
                    Timeout_start (micros s) 200000 (do_host_reset_timeout s)\<rparr>
      else if command_isPaused s \<or> command_pauseIntermediateState s
      then s' = indicateError ERR_RESET_DURING_BUILD
                  (stopBuildNow (s\<lparr>buildState := BUILD_CANCELLING, steppers_running := False\<rparr>)) \<and>
           do_host_reset s' \<and> buildState s' = BUILD_CANCELED \<and> paused s' = paused s
      else s' = s\<lparr>buildState := BUILD_CANCELLING, steppers_running := False,
                  paused := PAUSE_STATE_ENTERING, pauseHeaterControl := 0,
                  board_errors := board_errors s @ [ERR_RESET_DURING_BUILD]\<rparr>)"
proof -
  have d: "processQueryPacket fuel p to_host s =
           Some (True, fst (query_reset to_host s), snd (query_reset to_host s))"
    using assms(1-3) by (rule query_reset_dispatch)
  have o: "fst (query_reset to_host s) = to_host @ [RC_OK]"
    by (simp add: query_reset_def append8_def Let_def split: prod.splits)
  consider (abandon) "getEeprom8 CLEAR_FOR_ESTOP 0 s \<noteq> 1"
    | (paused) "getEeprom8 CLEAR_FOR_ESTOP 0 s = 1"
        "command_isPaused s \<or> command_pauseIntermediateState s"
    | (running) "getEeprom8 CLEAR_FOR_ESTOP 0 s = 1"
        "\<not> (command_isPaused s \<or> command_pauseIntermediateState s)"
    by blast
  then show ?thesis
  proof cases
    case abandon
    then have "snd (query_reset to_host s) =
        s\<lparr>board_errors := board_errors s @ [ERR_RESET_DURING_BUILD], do_host_reset := True,
          do_host_reset_timeout := Timeout_start (micros s) 200000 (do_host_reset_timeout s)\<rparr>"
      using assms(4) by (auto simp: query_reset_def indicateError_def)
    with abandon d o show ?thesis by simp
  next
    case paused
    let ?s' = "indicateError ERR_RESET_DURING_BUILD
                 (stopBuildNow (s\<lparr>buildState := BUILD_CANCELLING, steppers_running := False\<rparr>))"
    have "snd (query_reset to_host s) = ?s'"
      using assms(4) paused
      by (auto simp: query_reset_def stopBuild_def steppers_abort_def command_isPaused_def
            command_pauseIntermediateState_def)
    moreover have "do_host_reset ?s'" "buildState ?s' = BUILD_CANCELED" "paused ?s' = paused s"
      "board_errors ?s' = board_errors s @ [ERR_RESET_DURING_BUILD]"
      by (simp_all add: indicateError_def stopBuildNow_def Let_def stopPrintTime_def
            split: prod.splits)
    ultimately show ?thesis using paused d o by simp
  next
    case running
    then have "snd (query_reset to_host s) =
        s\<lparr>buildState := BUILD_CANCELLING, steppers_running := False,
          paused := PAUSE_STATE_ENTERING, pauseHeaterControl := 0,
          board_errors := board_errors s @ [ERR_RESET_DURING_BUILD]\<rparr>"
      using assms(4)
      by (auto simp: query_reset_def indicateError_def stopBuild_def steppers_abort_def
            command_isPaused_def command_pauseIntermediateState_def command_pause_def)
    with running d o show ?thesis by simp
  qed
qed

text \<open>
  C2, as stated, fails on a board whose persistent memory was never written: no policy
  was set, yet a RESET during a host build is not diverted. The deferred reset is armed
  at once, the build stays RUNNING, and the outcome differs from that of \<^verbatim>\<open>stopBuild\<close>.
\<close>

theorem reset_during_build_default_counterexample:
  "getEeprom8 CLEAR_FOR_ESTOP 0 building_host = 0 \<and>
   eeprom building_host CLEAR_FOR_ESTOP = 0xFF \<and>
   processQueryPacket 0 (finished_packet [HOST_CMD_RESET]) [] building_host =
     Some (True, [RC_OK],
           building_host\<lparr>board_errors := [ERR_RESET_DURING_BUILD], do_host_reset := True,
                         do_host_reset_timeout := Timeout_start 0 200000 Timeout_new\<rparr>) \<and>
   processQueryPacket 0 (finished_packet [HOST_CMD_RESET]) [] building_host \<noteq>
     Some (True, [RC_OK],
           indicateError ERR_RESET_DURING_BUILD
             (stopBuild (building_host\<lparr>buildState := BUILD_CANCELED\<rparr>)))"
proof -
  have d: "processQueryPacket 0 (finished_packet [HOST_CMD_RESET]) [] building_host =
        Some (True, fst (query_reset [] building_host), snd (query_reset [] building_host))"
    by (rule query_reset_dispatch[of HOST_CMD_RESET])
       (simp_all add: finished_packet_def getLength_def read8_def)
  have g: "getEeprom8 CLEAR_FOR_ESTOP 0 building_host = 0"
    by (simp add: getEeprom8_def building_host_fields)
  have q: "query_reset [] building_host =
     ([RC_OK], building_host\<lparr>board_errors := [ERR_RESET_DURING_BUILD], do_host_reset := True,
                         do_host_reset_timeout := Timeout_start 0 200000 Timeout_new\<rparr>)"
    by (simp add: query_reset_def g building_host_fields indicateError_def append8_def)
  have n: "do_host_reset (building_host\<lparr>board_errors := [ERR_RESET_DURING_BUILD],
                         do_host_reset := True,
                         do_host_reset_timeout := Timeout_start 0 200000 Timeout_new\<rparr>) \<noteq>
           do_host_reset (indicateError ERR_RESET_DURING_BUILD
             (stopBuild (building_host\<lparr>buildState := BUILD_CANCELED\<rparr>)))"
    by (simp add: indicateError_def stopBuild_def steppers_abort_def command_isPaused_def
          command_pauseIntermediateState_def command_pause_def building_host_fields)
  then have "building_host\<lparr>board_errors := [ERR_RESET_DURING_BUILD], do_host_reset := True,
                         do_host_reset_timeout := Timeout_start 0 200000 Timeout_new\<rparr> \<noteq>
           indicateError ERR_RESET_DURING_BUILD
             (stopBuild (building_host\<lparr>buildState := BUILD_CANCELED\<rparr>))"
    by metis
  then show ?thesis using g by (simp add: d q building_host_fields)
qed

theorem reset_during_build_by_setting_witness:
  "processQueryPacket 0 (finished_packet [HOST_CMD_RESET]) []
       (building_host\<lparr>eeprom := (eeprom building_host)(CLEAR_FOR_ESTOP := 1)\<rparr>) =
     Some (True, [RC_OK],
           building_host\<lparr>eeprom := (eeprom building_host)(CLEAR_FOR_ESTOP := 1),
                         buildState := BUILD_CANCELLING,
                         paused := PAUSE_STATE_ENTERING,
                         board_errors := [ERR_RESET_DURING_BUILD]\<rparr>) \<and>
   map_option (\<lambda>r. (do_host_reset (snd (snd r)), buildState (snd (snd r)),
                     currentState (snd (snd r)), cancelBuild (snd (snd r))))
     (processQueryPacket 0 (finished_packet [HOST_CMD_ABORT]) []
        (building_host\<lparr>eeprom := (eeprom building_host)(CLEAR_FOR_ESTOP := 1),
                        paused := PAUSE_STATE_PAUSED, buildState := BUILD_PAUSED\<rparr>)) =
     Some (True, BUILD_CANCELED, HOST_STATE_CANCEL_BUILD, True) \<and>
   processQueryPacket 0 (finished_packet [HOST_CMD_CLEAR_BUFFER]) [] building_host =
     Some (True, [RC_OK],
           building_host\<lparr>board_errors := [ERR_RESET_DURING_BUILD], do_host_reset := True,
                         do_host_reset_timeout := Timeout_start 0 200000 Timeout_new\<rparr>)"
proof -
  let ?a = "building_host\<lparr>eeprom := (eeprom building_host)(CLEAR_FOR_ESTOP := 1)\<rparr>"
  let ?b = "building_host\<lparr>eeprom := (eeprom building_host)(CLEAR_FOR_ESTOP := 1),
                        paused := PAUSE_STATE_PAUSED, buildState := BUILD_PAUSED\<rparr>"
  have a: "processQueryPacket 0 (finished_packet [HOST_CMD_RESET]) [] ?a =
     Some (True, [RC_OK],
           building_host\<lparr>eeprom := (eeprom building_host)(CLEAR_FOR_ESTOP := 1),
                         buildState := BUILD_CANCELLING,
                         paused := PAUSE_STATE_ENTERING,
                         board_errors := [ERR_RESET_DURING_BUILD]\<rparr>)"
    using reset_during_build_by_setting[of HOST_CMD_RESET "finished_packet [HOST_CMD_RESET]" ?a 0 "[]"]
    by (simp add: finished_packet_def getLength_def read8_def getEeprom8_def
          command_isPaused_def command_pauseIntermediateState_def building_host_fields)
       (simp add: building_host_def example_host_def)
  have b: "map_option (\<lambda>r. (do_host_reset (snd (snd r)), buildState (snd (snd r)),
                     currentState (snd (snd r)), cancelBuild (snd (snd r))))
     (processQueryPacket 0 (finished_packet [HOST_CMD_ABORT]) [] ?b) =
     Some (True, BUILD_CANCELED, HOST_STATE_CANCEL_BUILD, True)"
    using reset_during_build_by_setting[of HOST_CMD_ABORT "finished_packet [HOST_CMD_ABORT]" ?b 0 "[]"]
    by (auto simp: finished_packet_def getLength_def read8_def getEeprom8_def
          command_isPaused_def command_pauseIntermediateState_def building_host_fields
          indicateError_def stopBuildNow_def Let_def stopPrintTime_def split: prod.splits)
  have c: "processQueryPacket 0 (finished_packet [HOST_CMD_CLEAR_BUFFER]) [] building_host =
     Some (True, [RC_OK],
           building_host\<lparr>board_errors := [ERR_RESET_DURING_BUILD], do_host_reset := True,
                         do_host_reset_timeout := Timeout_start 0 200000 Timeout_new\<rparr>)"
    using reset_during_build_by_setting[of HOST_CMD_CLEAR_BUFFER
            "finished_packet [HOST_CMD_CLEAR_BUFFER]" building_host 0 "[]"]
    by (simp add: finished_packet_def getLength_def read8_def getEeprom8_def
          building_host_fields)
  from a b c show ?thesis by simp
qed

subsection \<open>The pause query\<close>

lemma append_packet_eq:
  "append_packet i n p out = out @ map (read8 p) [i..<n]"
proof (induction i n p out rule: append_packet.induct)
  case (1 i n p out)
  show ?case
  proof (cases "i < n")
    case False
    then show ?thesis by (subst append_packet.simps) simp
  next
    case True
    have "append_packet i n p out = append_packet (i + 1) n p (append8 (read8 p i) out)"
      using True by (subst append_packet.simps) simp
    also have "\<dots> = append8 (read8 p i) out @ map (read8 p) [i + 1..<n]"
      using True by (rule "1.IH")
    also have "\<dots> = out @ map (read8 p) [i..<n]"
      using True by (simp add: append8_def upt_conv_Cons)
    finally show ?thesis .
  qed
qed

lemma tool_pump_eq:
  "tool_pump t =
     (if tool_transaction_done t then t
      else t\<lparr>tool_slices_left := 0, tool_transaction_done := True, tool_in := tool_reply t\<rparr>)"
proof (induction t rule: tool_pump.induct)
  case (1 t)
  show ?case
  proof (cases "tool_transaction_done t")
    case True
    then show ?thesis by (subst tool_pump.simps) (simp add: tool_isTransactionDone_def)
  next
    case False
    then have "tool_pump t = tool_pump (tool_runToolSlice t)"
      by (subst tool_pump.simps) (simp add: tool_isTransactionDone_def)
    also have "\<dots> = (if tool_transaction_done (tool_runToolSlice t) then tool_runToolSlice t
      else (tool_runToolSlice t)\<lparr>tool_slices_left := 0, tool_transaction_done := True,
             tool_in := tool_reply (tool_runToolSlice t)\<rparr>)"
      using False by (intro "1.IH") (simp add: tool_isTransactionDone_def)
    also have "\<dots> = t\<lparr>tool_slices_left := 0, tool_transaction_done := True, tool_in := tool_reply t\<rparr>"
      using False by (simp add: tool_runToolSlice_def split: nat.splits)
    finally show ?thesis using False by simp
  qed
qed

lemma tool_exchange_reply:
  "\<exists>relay. fst (tool_exchange out to_host s) = to_host @ relay \<and>
     (relay = [RC_DOWNSTREAM_TIMEOUT] \<or>
      relay = map (read8 (tool_in (tool (snd (tool_exchange out to_host s)))))
                [0..<unat (getLength (tool_in (tool (snd (tool_exchange out to_host s)))))])"
  by (simp add: tool_exchange_def Let_def append_packet_eq append8_def)

lemma acquire_lock_free_eq:
  "0 < fuel \<Longrightarrow> \<not> tool_locked (tool s) \<Longrightarrow>
   acquire_lock fuel t s =
     Some (True, s\<lparr>tool := (tool s)\<lparr>tool_lock_attempts := tool_lock_attempts (tool s) + 1,
                                    tool_locked := True\<rparr>\<rparr>)"
  by (cases fuel) (simp_all add: tool_getLock_def Let_def)

lemma acquire_lock_free:
  "\<not> tool_locked (tool s) \<Longrightarrow> \<exists>s'. acquire_lock (Suc n) t s = Some (True, s')"
  by (subst acquire_lock_free_eq) simp_all

lemma poll_reaches_timeout:
  assumes "poll \<noteq> (0 :: u32)"
  shows "\<exists>d \<le> 50000. (50000 :: u32) \<le> of_nat d * poll"
proof (cases "50000 \<le> unat poll")
  case True
  then have "(50000 :: u32) \<le> of_nat 1 * poll" by (simp add: word_le_nat_alt)
  then show ?thesis by (intro exI[of _ 1]) simp
next
  case False
  define P where "P = unat poll"
  have P: "0 < P" "P < 50000" using assms False by (simp_all add: P_def unat_gt_0)
  define d where "d = (50000 + P - 1) div P"
  have split: "d * P + (50000 + P - 1) mod P = 50000 + P - 1"
    unfolding d_def by (rule div_mult_mod_eq)
  have "(50000 + P - 1) mod P < P" using P(1) by (rule mod_less_divisor)
  with split have lo: "50000 \<le> d * P" by linarith
  from split have hi: "d * P \<le> 50000 + P - 1" by linarith
  have dle: "d \<le> 50000"
  proof (rule ccontr)
    assume "\<not> d \<le> 50000"
    then have "50001 \<le> d" by simp
    then have "50001 * P \<le> d * P" by (rule mult_le_mono1)
    with hi P show False by linarith
  qed
  have "unat (of_nat d * poll) = (d mod 2 ^ 32) * P mod 2 ^ 32"
    by (simp add: unat_word_ariths unat_of_nat P_def mod_mult_left_eq)
  also have "\<dots> = d * P" using dle hi P by simp
  finally have "unat (50000 :: u32) \<le> unat (of_nat d * poll)" using lo by simp
  then have "(50000 :: u32) \<le> of_nat d * poll" by (simp only: word_le_nat_alt)
  with dle show ?thesis by blast
qed

lemma acquire_lock_held_exact:
  "tool_locked (tool s) \<Longrightarrow> active t \<Longrightarrow> \<not> elapsed t \<Longrightarrow> \<not> is_paused t \<Longrightarrow>
   duration_micros t \<le> micros s + of_nat d * poll_micros s - start_stamp_micros t \<Longrightarrow>
   \<exists>k\<le>d.
     duration_micros t \<le> micros s + of_nat k * poll_micros s - start_stamp_micros t \<and>
     (\<forall>j<k. \<not> duration_micros t \<le> micros s + of_nat j * poll_micros s - start_stamp_micros t) \<and>
     acquire_lock (Suc d + n) t s =
       Some (False,
             s\<lparr>tool := (tool s)\<lparr>tool_lock_attempts := tool_lock_attempts (tool s) + Suc k\<rparr>,
               micros := micros s + of_nat k * poll_micros s\<rparr>)"
proof (induction d arbitrary: s)
  case 0
  then have "acquire_lock (Suc 0 + n) t s =
      Some (False, s\<lparr>tool := (tool s)\<lparr>tool_lock_attempts := tool_lock_attempts (tool s) + Suc 0\<rparr>,
               micros := micros s + of_nat 0 * poll_micros s\<rparr>)"
    by (simp add: tool_getLock_def Let_def Timeout_hasElapsed_def)
  with "0.prems"(5) show ?case by (intro exI[of _ 0]) simp
next
  case (Suc d)
  let ?ch = "(tool s)\<lparr>tool_lock_attempts := tool_lock_attempts (tool s) + 1\<rparr>"
  let ?s1 = "s\<lparr>tool := ?ch, micros := micros s + poll_micros s\<rparr>"
  show ?case
  proof (cases "duration_micros t \<le> micros s - start_stamp_micros t")
    case True
    with Suc.prems have "acquire_lock (Suc (Suc d) + n) t s =
      Some (False, s\<lparr>tool := (tool s)\<lparr>tool_lock_attempts := tool_lock_attempts (tool s) + Suc 0\<rparr>,
               micros := micros s + of_nat 0 * poll_micros s\<rparr>)"
      by (simp add: tool_getLock_def Let_def Timeout_hasElapsed_def)
    with True show ?thesis by (intro exI[of _ 0]) simp
  next
    case False
    have eq: "micros ?s1 + of_nat j * poll_micros ?s1 = micros s + of_nat (Suc j) * poll_micros s"
      for j by (simp add: algebra_simps)
    have "\<exists>k\<le>d.
       duration_micros t \<le> micros ?s1 + of_nat k * poll_micros ?s1 - start_stamp_micros t \<and>
       (\<forall>j<k. \<not> duration_micros t \<le> micros ?s1 + of_nat j * poll_micros ?s1 - start_stamp_micros t) \<and>
       acquire_lock (Suc d + n) t ?s1 =
         Some (False,
             ?s1\<lparr>tool := (tool ?s1)\<lparr>tool_lock_attempts := tool_lock_attempts (tool ?s1) + Suc k\<rparr>,
               micros := micros ?s1 + of_nat k * poll_micros ?s1\<rparr>)"
    proof (rule Suc.IH)
      show "tool_locked (tool ?s1)" using Suc.prems(1) by simp
      show "active t" "\<not> elapsed t" "\<not> is_paused t" using Suc.prems by simp_all
      show "duration_micros t \<le> micros ?s1 + of_nat d * poll_micros ?s1 - start_stamp_micros t"
        unfolding eq by (rule Suc.prems(5))
    qed
    then obtain k where k: "k \<le> d"
      "duration_micros t \<le> micros s + of_nat (Suc k) * poll_micros s - start_stamp_micros t"
      "\<forall>j<k. \<not> duration_micros t \<le> micros s + of_nat (Suc j) * poll_micros s - start_stamp_micros t"
      "acquire_lock (Suc d + n) t ?s1 =
         Some (False,
             ?s1\<lparr>tool := (tool ?s1)\<lparr>tool_lock_attempts := tool_lock_attempts (tool ?s1) + Suc k\<rparr>,
               micros := micros ?s1 + of_nat k * poll_micros ?s1\<rparr>)"
      unfolding eq by blast
    have step: "acquire_lock (Suc (Suc d) + n) t s = acquire_lock (Suc d + n) t ?s1"
      using False Suc.prems by (simp add: tool_getLock_def Let_def Timeout_hasElapsed_def)
    have fin: "?s1\<lparr>tool := (tool ?s1)\<lparr>tool_lock_attempts := tool_lock_attempts (tool ?s1) + Suc k\<rparr>,
               micros := micros ?s1 + of_nat k * poll_micros ?s1\<rparr> =
          s\<lparr>tool := (tool s)\<lparr>tool_lock_attempts := tool_lock_attempts (tool s) + Suc (Suc k)\<rparr>,
               micros := micros s + of_nat (Suc k) * poll_micros s\<rparr>"
      by (simp add: algebra_simps)
    have least: "\<forall>j<Suc k. \<not> duration_micros t \<le> micros s + of_nat j * poll_micros s - start_stamp_micros t"
    proof (intro allI impI)
      fix j assume "j < Suc k"
      show "\<not> duration_micros t \<le> micros s + of_nat j * poll_micros s - start_stamp_micros t"
      proof (cases j)
        case 0
        with False show ?thesis by simp
      next
        case (Suc j')
        with \<open>j < Suc k\<close> k(3) show ?thesis by simp
      qed
    qed
    show ?thesis
      using k(1,2) least step k(4) fin by (intro exI[of _ "Suc k"]) simp
  qed
qed

lemma acquire_lock_timeout:
  assumes "poll_micros s \<noteq> 0" and "tool_locked (tool s)"
  shows "\<exists>k\<le>50000. 50000 \<le> of_nat k * poll_micros s \<and>
      (\<forall>j<k. \<not> 50000 \<le> of_nat j * poll_micros s) \<and>
      acquire_lock (50001 + m)
           (Timeout_start (micros s) HOST_TOOL_RESPONSE_TIMEOUT_MICROS Timeout_new) s =
        Some (False,
             s\<lparr>tool := (tool s)\<lparr>tool_lock_attempts := tool_lock_attempts (tool s) + Suc k\<rparr>,
               micros := micros s + of_nat k * poll_micros s\<rparr>)"
proof -
  let ?t = "Timeout_start (micros s) HOST_TOOL_RESPONSE_TIMEOUT_MICROS Timeout_new"
  obtain d where d: "d \<le> 50000" "(50000 :: u32) \<le> of_nat d * poll_micros s"
    using poll_reaches_timeout[OF assms(1)] by blast
  have t: "active ?t" "\<not> elapsed ?t" "\<not> is_paused ?t" "duration_micros ?t = 50000"
    "start_stamp_micros ?t = micros s"
    by (simp_all add: Timeout_start_def HOST_TOOL_RESPONSE_TIMEOUT_MICROS_def)
  have "duration_micros ?t \<le> micros s + of_nat d * poll_micros s - start_stamp_micros ?t"
    using d(2) by (simp add: t)
  from acquire_lock_held_exact[OF assms(2) t(1-3) this, of "50000 - d + m"]
  obtain k where k: "k \<le> d" "50000 \<le> of_nat k * poll_micros s"
    "\<forall>j<k. \<not> 50000 \<le> of_nat j * poll_micros s"
    "acquire_lock (Suc d + (50000 - d + m)) ?t s =
        Some (False,
             s\<lparr>tool := (tool s)\<lparr>tool_lock_attempts := tool_lock_attempts (tool s) + Suc k\<rparr>,
               micros := micros s + of_nat k * poll_micros s\<rparr>)"
    unfolding t by auto
  have "Suc d + (50000 - d + m) = 50001 + m" using d(1) by simp
  with k d(1) show ?thesis by (intro exI[of _ k]) simp
qed

lemma acquire_lock_returns:
  assumes "poll_micros s \<noteq> 0"
  shows "\<exists>got s'. acquire_lock (50001 + m)
           (Timeout_start (micros s) HOST_TOOL_RESPONSE_TIMEOUT_MICROS Timeout_new) s =
         Some (got, s')"
proof (cases "tool_locked (tool s)")
  case False
  have "50001 + m = Suc (50000 + m)" by simp
  with acquire_lock_free[OF False] show ?thesis by metis
next
  case True
  from acquire_lock_timeout[OF assms True, of m] show ?thesis by blast
qed

lemma doToolPause_reply:
  assumes "poll_micros s \<noteq> 0"
  shows "\<exists>relay s'. doToolPause (50001 + m) to_host s = Some (to_host @ relay, s') \<and>
     (relay = [RC_DOWNSTREAM_TIMEOUT] \<or>
      relay = map (read8 (tool_in (tool s'))) [0..<unat (getLength (tool_in (tool s')))])"
proof -
  obtain got s1 where a: "acquire_lock (50001 + m)
      (Timeout_start (micros s) HOST_TOOL_RESPONSE_TIMEOUT_MICROS Timeout_new) s = Some (got, s1)"
    using acquire_lock_returns[OF assms] by blast
  show ?thesis
  proof (cases got)
    case False
    with a have "doToolPause (50001 + m) to_host s =
        Some (to_host @ [RC_DOWNSTREAM_TIMEOUT], indicateError ERR_SLAVE_LOCK_TIMEOUT s1)"
      by (simp add: doToolPause_def append8_def)
    then show ?thesis by blast
  next
    case True
    let ?r = "tool_exchange (append8 SLAVE_CMD_PAUSE_UNPAUSE (append8 (tool_index (tool s1)) []))
                to_host s1"
    from True a have "doToolPause (50001 + m) to_host s = Some (fst ?r, snd ?r)"
      by (simp add: doToolPause_def)
    moreover obtain relay where "fst ?r = to_host @ relay"
      "relay = [RC_DOWNSTREAM_TIMEOUT] \<or>
       relay = map (read8 (tool_in (tool (snd ?r)))) [0..<unat (getLength (tool_in (tool (snd ?r))))]"
      using tool_exchange_reply by blast
    ultimately show ?thesis by metis
  qed
qed

lemma poll_micros_pauseBuild [simp]: "poll_micros (pauseBuild pause h s) = poll_micros s"
  by (simp add: pauseBuild_def command_pause_def)

lemma tool_exchange_eq:
  "tool_exchange out to_host s =
     (to_host @ (if pkt_error (tool_reply (tool s)) = PACKET_TIMEOUT
                 then [RC_DOWNSTREAM_TIMEOUT]
                 else map (read8 (tool_reply (tool s)))
                        [0..<unat (getLength (tool_reply (tool s)))]),
      s\<lparr>tool := (tool s)\<lparr>tool_out := out, tool_locked := False, tool_slices_left := 0,
                          tool_transaction_done := True,
                          tool_in := tool_reply (tool s)\<rparr>\<rparr>)"
  by (simp add: tool_exchange_def Let_def tool_pump_eq tool_startTransaction_def
        tool_releaseLock_def getErrorCode_def append_packet_eq append8_def)

lemma pauseBuild_frame [simp]:
  "tool (pauseBuild pause h s) = tool s"
  "micros (pauseBuild pause h s) = micros s"
  "board_errors (pauseBuild pause h s) = board_errors s"
  by (simp_all add: pauseBuild_def command_pause_def)

text \<open>
  C9, as the code has it. On a board whose clock advances during a busy wait, a PAUSE
  query always returns, and OK is the last byte the handler appends. While a pause or
  unpause transition is in progress the relay is skipped: OK is the only byte appended
  and the state is unchanged. Otherwise \<^verbatim>\<open>pauseBuild\<close> toggles the pause and the tool
  pause is relayed before OK is appended. If the tool lock is held, the lock wait polls
  until the first poll at which 50 ms have elapsed; the handler then appends the
  downstream-timeout code and OK, raises the lock-timeout indicator, and starts no
  transaction. If the lock is free, the transaction with the toolhead index and the
  pause opcode runs to its end and the lock is released; the handler appends the
  downstream-timeout code when the tool link reports a packet timeout, else the bytes
  of the tool's reply, its own result code first, and then OK.
\<close>

theorem handlePause_reply:
  assumes "poll_micros s \<noteq> 0"
  shows
   "if command_pauseIntermediateState s
    then handlePause (50001 + m) p to_host s = Some (to_host @ [RC_OK], s)
    else if tool_locked (tool s)
    then (\<exists>k\<le>50000. 50000 \<le> of_nat k * poll_micros s \<and>
            (\<forall>j<k. \<not> 50000 \<le> of_nat j * poll_micros s) \<and>
            handlePause (50001 + m) p to_host s =
              Some (to_host @ [RC_DOWNSTREAM_TIMEOUT, RC_OK],
                    (pauseBuild (\<not> command_isPaused s) (PAUSE_EXT_OFF OR PAUSE_HBP_OFF) s)
                      \<lparr>tool := (tool s)\<lparr>tool_lock_attempts :=
                                            tool_lock_attempts (tool s) + Suc k\<rparr>,
                        micros := micros s + of_nat k * poll_micros s,
                        board_errors := board_errors s @ [ERR_SLAVE_LOCK_TIMEOUT]\<rparr>))
    else handlePause (50001 + m) p to_host s =
           Some (to_host @
                   (if pkt_error (tool_reply (tool s)) = PACKET_TIMEOUT
                    then [RC_DOWNSTREAM_TIMEOUT]
                    else map (read8 (tool_reply (tool s)))
                           [0..<unat (getLength (tool_reply (tool s)))]) @ [RC_OK],
                 (pauseBuild (\<not> command_isPaused s) (PAUSE_EXT_OFF OR PAUSE_HBP_OFF) s)
                   \<lparr>tool := (tool s)\<lparr>tool_lock_attempts := tool_lock_attempts (tool s) + 1,
                                       tool_locked := False,
                                       tool_out := [tool_index (tool s), SLAVE_CMD_PAUSE_UNPAUSE],
                                       tool_slices_left := 0,
                                       tool_transaction_done := True,
                                       tool_in := tool_reply (tool s)\<rparr>\<rparr>)"
proof -
  let ?s0 = "pauseBuild (\<not> command_isPaused s) (PAUSE_EXT_OFF OR PAUSE_HBP_OFF) s"
  consider (transition) "command_pauseIntermediateState s"
    | (locked) "\<not> command_pauseIntermediateState s" "tool_locked (tool s)"
    | (free) "\<not> command_pauseIntermediateState s" "\<not> tool_locked (tool s)"
    by blast
  then show ?thesis
  proof cases
    case transition
    then show ?thesis by (simp add: handlePause_def append8_def)
  next
    case locked
    have "poll_micros ?s0 \<noteq> 0" "tool_locked (tool ?s0)" using assms locked(2) by simp_all
    from acquire_lock_timeout[OF this, of m]
    obtain k where k: "k \<le> 50000" "50000 \<le> of_nat k * poll_micros s"
      "\<forall>j<k. \<not> 50000 \<le> of_nat j * poll_micros s"
      "acquire_lock (50001 + m)
           (Timeout_start (micros s) HOST_TOOL_RESPONSE_TIMEOUT_MICROS Timeout_new) ?s0 =
        Some (False,
             ?s0\<lparr>tool := (tool s)\<lparr>tool_lock_attempts := tool_lock_attempts (tool s) + Suc k\<rparr>,
               micros := micros s + of_nat k * poll_micros s\<rparr>)"
      by auto
    have "handlePause (50001 + m) p to_host s =
              Some (to_host @ [RC_DOWNSTREAM_TIMEOUT, RC_OK],
                    ?s0\<lparr>tool := (tool s)\<lparr>tool_lock_attempts :=
                                            tool_lock_attempts (tool s) + Suc k\<rparr>,
                        micros := micros s + of_nat k * poll_micros s,
                        board_errors := board_errors s @ [ERR_SLAVE_LOCK_TIMEOUT]\<rparr>)"
      using locked(1) k(4)
      by (simp add: handlePause_def doToolPause_def append8_def indicateError_def)
    with locked k(1-3) show ?thesis by auto
  next
    case free
    have f: "\<not> tool_locked (tool ?s0)" using free(2) by simp
    have a: "acquire_lock (50001 + m)
           (Timeout_start (micros s) HOST_TOOL_RESPONSE_TIMEOUT_MICROS Timeout_new) ?s0 =
        Some (True, ?s0\<lparr>tool := (tool s)\<lparr>tool_lock_attempts := tool_lock_attempts (tool s) + 1,
                                    tool_locked := True\<rparr>\<rparr>)"
      using acquire_lock_free_eq[OF _ f, of "50001 + m"] by simp
    show ?thesis
      using free a
      by (simp add: handlePause_def doToolPause_def tool_exchange_eq append8_def)
  qed
qed

text \<open>
  C9, as stated, fails: when the tool transaction times out, the response to a PAUSE
  query starts with the downstream-timeout code, and OK is its second byte.
\<close>

theorem pause_first_byte_counterexample:
  "map_option (\<lambda>r. fst (snd r))
     (processQueryPacket 1 (finished_packet [HOST_CMD_PAUSE]) [] timed_out_tool_host) =
     Some [RC_DOWNSTREAM_TIMEOUT, RC_OK] \<and>
   RC_DOWNSTREAM_TIMEOUT \<noteq> RC_OK"
proof -
  have l: "\<not> tool_locked (tool timed_out_tool_host)"
    "paused timed_out_tool_host = PAUSE_STATE_NONE"
    "tool_reply (tool timed_out_tool_host) = empty_packet\<lparr>pkt_error := PACKET_TIMEOUT\<rparr>"
    by (simp_all add: timed_out_tool_host_def example_host_def example_tool_def)
  have "map_option fst (handlePause 1 (finished_packet [HOST_CMD_PAUSE]) [] timed_out_tool_host) =
      Some [RC_DOWNSTREAM_TIMEOUT, RC_OK]"
    using l
    by (simp add: handlePause_def command_pauseIntermediateState_def command_isPaused_def
          pauseBuild_def command_pause_def doToolPause_def tool_getLock_def Let_def
          tool_exchange_def tool_pump_eq tool_startTransaction_def tool_releaseLock_def
          getErrorCode_def append8_def)
  then have "map_option (\<lambda>r. fst (snd r))
     (processQueryPacket 1 (finished_packet [HOST_CMD_PAUSE]) [] timed_out_tool_host) =
     Some [RC_DOWNSTREAM_TIMEOUT, RC_OK]"
    unfolding processQueryPacket_def
    by (auto simp: finished_packet_def getLength_def read8_def HOST_CMD_defs handled_def
          split: option.splits)
  then show ?thesis by (simp add: RC_defs)
qed

theorem handlePause_reply_witness:
  "poll_micros example_host \<noteq> 0 \<and>
   handlePause 50001 (finished_packet [HOST_CMD_PAUSE]) [] example_host =
     Some ([RC_OK, RC_OK],
           example_host\<lparr>paused := PAUSE_STATE_ENTERING, pauseHeaterControl := 3,
                        buildState := BUILD_PAUSED,
                        print_time := Timeout_new\<lparr>is_paused := True\<rparr>,
                        tool := example_tool\<lparr>tool_lock_attempts := 1,
                                             tool_out := [0, SLAVE_CMD_PAUSE_UNPAUSE],
                                             tool_in := finished_packet [RC_OK]\<rparr>\<rparr>) \<and>
   handlePause 50001 (finished_packet [HOST_CMD_PAUSE]) []
       (example_host\<lparr>paused := PAUSE_STATE_EXITING\<rparr>) =
     Some ([RC_OK], example_host\<lparr>paused := PAUSE_STATE_EXITING\<rparr>) \<and>
   map_option fst (handlePause 50001 (finished_packet [HOST_CMD_PAUSE]) [] locked_tool_host) =
     Some [RC_DOWNSTREAM_TIMEOUT, RC_OK] \<and>
   map_option fst (handlePause 50001 (finished_packet [HOST_CMD_PAUSE]) [] timed_out_tool_host) =
     Some [RC_DOWNSTREAM_TIMEOUT, RC_OK]"
proof -
  let ?p = "finished_packet [HOST_CMD_PAUSE]"
  have a: "handlePause 50001 ?p [] example_host =
     Some ([RC_OK, RC_OK],
           example_host\<lparr>paused := PAUSE_STATE_ENTERING, pauseHeaterControl := 3,
                        buildState := BUILD_PAUSED,
                        print_time := Timeout_new\<lparr>is_paused := True\<rparr>,
                        tool := example_tool\<lparr>tool_lock_attempts := 1,
                                             tool_out := [0, SLAVE_CMD_PAUSE_UNPAUSE],
                                             tool_in := finished_packet [RC_OK]\<rparr>\<rparr>)"
    using handlePause_reply[of example_host 0 ?p "[]"]
    by (simp add: example_host_def example_tool_def command_pauseIntermediateState_def
          command_isPaused_def pauseBuild_def command_pause_def Timeout_pause_def
          Timeout_new_def finished_packet_def getLength_def read8_def
          PAUSE_EXT_OFF_def PAUSE_HBP_OFF_def)
  have b: "handlePause 50001 ?p [] (example_host\<lparr>paused := PAUSE_STATE_EXITING\<rparr>) =
     Some ([RC_OK], example_host\<lparr>paused := PAUSE_STATE_EXITING\<rparr>)"
    using handlePause_reply[of "example_host\<lparr>paused := PAUSE_STATE_EXITING\<rparr>" 0 ?p "[]"]
    by (simp add: example_host_def command_pauseIntermediateState_def)
  have c: "map_option fst (handlePause 50001 ?p [] locked_tool_host) =
     Some [RC_DOWNSTREAM_TIMEOUT, RC_OK]"
    using handlePause_reply[of locked_tool_host 0 ?p "[]"]
    by (auto simp: locked_tool_host_def example_host_def example_tool_def
          command_pauseIntermediateState_def)
  have d: "map_option fst (handlePause 50001 ?p [] timed_out_tool_host) =
     Some [RC_DOWNSTREAM_TIMEOUT, RC_OK]"
    using handlePause_reply[of timed_out_tool_host 0 ?p "[]"]
    by (simp add: timed_out_tool_host_def example_host_def example_tool_def
          command_pauseIntermediateState_def empty_packet_def)
  have "poll_micros example_host \<noteq> 0" by (simp add: example_host_def)
  with a b c d show ?thesis by simp
qed

subsection \<open>The deferred reset and the cancel notification\<close>

lemma resets_indicateError [simp]: "resets (indicateError e s) = resets s"
  by (simp add: indicateError_def)

lemma resets_stopPrintTime [simp]: "resets (stopPrintTime s) = resets s"
  by (simp add: stopPrintTime_def split: prod.splits)

lemma resets_stopBuildNow [simp]: "resets (stopBuildNow s) = resets s"
  by (simp add: stopBuildNow_def Let_def)

lemma resets_stopBuild [simp]: "resets (stopBuild s) = resets s"
  by (simp add: stopBuild_def Let_def steppers_abort_def command_pause_def)

lemma resets_pauseBuild [simp]: "resets (pauseBuild p h s) = resets s"
  by (simp add: pauseBuild_def Let_def command_pause_def)

lemma resets_managePrintTime [simp]: "resets (managePrintTime s) = resets s"
  by (simp add: managePrintTime_def split: prod.splits)

lemma resets_finish_slice [simp]: "resets (finish_slice s) = resets s"
  by (simp add: finish_slice_def)

lemma resets_watch_packet [simp]: "resets (watch_packet s) = resets s"
  by (simp add: watch_packet_def split: prod.splits)

lemma resets_report_error [simp]: "resets (report_error s) = resets s"
  by (simp add: report_error_def Let_def)

lemma resets_command_push [simp]: "resets (command_push b s) = resets s"
  by (simp add: command_push_def)

lemma resets_push_packet [simp]: "resets (push_packet i n p s) = resets s"
proof (induction i n p s rule: push_packet.induct)
  case (1 i n p s)
  then show ?case by (subst push_packet.simps) simp
qed

lemma resets_processCommandPacket [simp]:
  "resets (snd (snd (processCommandPacket p out s))) = resets s"
  by (simp add: processCommandPacket_def Let_def sdcard_capturePacket_def)

lemma resets_acquire_lock:
  "acquire_lock fuel t s = Some (got, s') \<Longrightarrow> resets s' = resets s"
proof (induction fuel arbitrary: t s)
  case 0
  then show ?case by simp
next
  case (Suc fuel)
  from Suc.prems show ?case
    by (auto simp: tool_getLock_def Let_def split: if_splits prod.splits dest!: Suc.IH)
qed

lemma resets_tool_exchange [simp]: "resets (snd (tool_exchange out to_host s)) = resets s"
  by (simp add: tool_exchange_def Let_def)

lemma resets_tool_exchange_eq:
  "tool_exchange out to_host s = (o1, s') \<Longrightarrow> resets s' = resets s"
  using resets_tool_exchange[of out to_host s] by simp

lemma resets_doToolPause:
  "doToolPause fuel to_host s = Some (out, s') \<Longrightarrow> resets s' = resets s"
  by (auto simp: doToolPause_def split: option.splits if_splits
        dest!: resets_acquire_lock resets_tool_exchange_eq)

lemma resets_handleToolQuery:
  "handleToolQuery fuel p to_host s = Some (out, s') \<Longrightarrow> resets s' = resets s"
  by (auto simp: handleToolQuery_def split: option.splits if_splits
        dest!: resets_acquire_lock resets_tool_exchange_eq)

lemma resets_handlePause:
  "handlePause fuel p to_host s = Some (out, s') \<Longrightarrow> resets s' = resets s"
  by (auto simp: handlePause_def split: option.splits if_splits dest!: resets_doToolPause)

lemma resets_query_reset [simp]: "resets (snd (query_reset to_host s)) = resets s"
  by (simp add: query_reset_def Let_def split: prod.splits)

lemma resets_command_reset [simp]: "resets (command_reset s) = resets s"
  by (simp add: command_reset_def)

lemma resets_startBuildFromSD [simp]: "resets (snd (startBuildFromSD f s)) = resets s"
  by (simp add: startBuildFromSD_def Let_def sdcard_startPlayback_def steppers_abort_def
        steppers_reset_def split: prod.splits FileNameArg.splits)

lemma resets_startBuildFromSD_eq:
  "startBuildFromSD f s = (e, s') \<Longrightarrow> resets s' = resets s"
  using resets_startBuildFromSD[of f s] by simp

lemma resets_handlers [simp]:
  "resets (snd (handleVersion p out s)) = resets s"
  "resets (snd (handleGetAdvancedVersion p out s)) = resets s"
  "resets (snd (handleGetBuildName p out s)) = resets s"
  "resets (snd (handleGetBufferSize p out s)) = resets s"
  "resets (snd (handleGetPosition p out s)) = resets s"
  "resets (snd (handleGetPositionExt p out s)) = resets s"
  "resets (snd (handleCaptureToFile p out s)) = resets s"
  "resets (snd (handleEndCapture p out s)) = resets s"
  "resets (snd (handlePlayback p out s)) = resets s"
  "resets (snd (handleNextFilename p out s)) = resets s"
  "resets (snd (handleIsFinished p out s)) = resets s"
  "resets (snd (handleReadEeprom p out s)) = resets s"
  "resets (snd (handleWriteEeprom p out s)) = resets s"
  "resets (snd (handleExtendedStop p out s)) = resets s"
  "resets (snd (handleGetBoardStatus out s)) = resets s"
  "resets (snd (handleGetBuildStats out s)) = resets s"
proof -
  show "resets (snd (handlePlayback p out s)) = resets s"
    by (auto simp: handlePlayback_def Let_def split: prod.splits dest!: resets_startBuildFromSD_eq)
qed (simp_all add: handleVersion_def handleGetAdvancedVersion_def handleGetBuildName_def
      handleGetBufferSize_def handleGetPosition_def handleGetPositionExt_def
      handleCaptureToFile_def sdcard_startCapture_def handleEndCapture_def
      sdcard_finishCapture_def sdcard_reset_def handleNextFilename_def
      sdcard_directoryReset_def handleIsFinished_def handleReadEeprom_def
      handleWriteEeprom_def handleExtendedStop_def steppers_abort_def
      handleGetBoardStatus_def handleGetBuildStats_def Let_def split: prod.splits)

lemma handled_resets:
  "handled r = Some (done, out, s') \<Longrightarrow> resets s' = resets (snd r)"
  by (auto simp: handled_def)

lemma resets_processQueryPacket:
  "processQueryPacket fuel p to_host s = Some (done, out, s') \<Longrightarrow> resets s' = resets s"
  unfolding processQueryPacket_def Let_def
  by (auto split: if_splits option.splits
        dest!: handled_resets dest: resets_handlePause resets_handleToolQuery)

lemma resets_processCommandPacket_eq:
  "processCommandPacket p to_host s = (done, out, s') \<Longrightarrow> resets s' = resets s"
  using resets_processCommandPacket[of p to_host s] by simp

lemma resets_dispatch_packet:
  "dispatch_packet fuel s = Some s' \<Longrightarrow> resets s' = resets s"
  unfolding dispatch_packet_def Let_def
  by (auto split: if_splits option.splits prod.splits
        dest!: resets_processQueryPacket resets_processCommandPacket_eq)

lemma hold_for_reply_frame:
  "resets (snd (hold_for_reply s)) = resets s"
  "cancelBuild (snd (hold_for_reply s)) = cancelBuild s"
  "cancel_timeout (snd (hold_for_reply s)) = cancel_timeout s"
  "micros (snd (hold_for_reply s)) = micros s"
  "do_host_reset (snd (hold_for_reply s)) = do_host_reset s"
  by (simp_all add: hold_for_reply_def split: prod.splits)

lemma reset_due_frame: "resets (snd (reset_due s)) = resets s"
  by (simp add: reset_due_def split: prod.splits)

lemma reset_due_iff:
  "fst (reset_due s) \<longleftrightarrow>
     do_host_reset s \<and> (\<not> cancelBuild s \<or> fst (Timeout_hasElapsed (micros s) (cancel_timeout s)))"
  by (simp add: reset_due_def split: prod.splits)

text \<open>The cancel finalisation at the head of the tick never makes a withheld reset due.\<close>

lemma stopBuildNow_cancel:
  "micros (stopBuildNow s) = micros s"
  "cancelBuild (stopBuildNow s) = (cancelBuild s \<or> currentState s = HOST_STATE_BUILDING)"
  "cancel_timeout (stopBuildNow s) =
     (if currentState s = HOST_STATE_BUILDING
      then Timeout_start (micros s) 1000000 (cancel_timeout s) else cancel_timeout s)"
  by (simp_all add: stopBuildNow_def Let_def stopPrintTime_def split: prod.splits)

lemma fresh_timeout_not_elapsed:
  "\<not> fst (Timeout_hasElapsed now (Timeout_start now 1000000 t))"
  by (simp add: Timeout_hasElapsed_def Timeout_start_def)

lemma finalise_keeps_cancel_pending:
  assumes "cancelBuild s" and "\<not> fst (Timeout_hasElapsed (micros s) (cancel_timeout s))"
  shows "cancelBuild (stopBuildNow s) \<and>
         \<not> fst (Timeout_hasElapsed (micros (stopBuildNow s)) (cancel_timeout (stopBuildNow s)))"
  using assms by (simp add: stopBuildNow_cancel fresh_timeout_not_elapsed)

lemma resets_perform_reset: "resets (perform_reset s) = resets s @ [hard_reset s]"
  by (simp add: perform_reset_def Let_def reset_def stopBuild_def steppers_abort_def
        command_pause_def stopBuildNow_def stopPrintTime_def split: prod.splits)

lemma runHostSlice_resets:
  assumes "runHostSlice fuel s = Some s'"
  shows "resets s' = resets s \<or>
         (resets s' = resets s @ [hard_reset s] \<and>
          (\<not> cancelBuild s \<or> fst (Timeout_hasElapsed (micros s) (cancel_timeout s))))"
proof -
  define s1 where "s1 = (if buildState s = BUILD_CANCELLING \<and> command_pauseState s = PAUSE_STATE_PAUSED
                then stopBuildNow s else s)"
  define s2 where "s2 = snd (hold_for_reply s1)"
  define s3 where "s3 = snd (reset_due s2)"
  have r1: "resets s1 = resets s" by (simp add: s1_def)
  have r2: "resets s2 = resets s" by (simp add: s2_def hold_for_reply_frame r1)
  have r3: "resets s3 = resets s" by (simp add: s3_def reset_due_frame r2)
  have h1: "hard_reset s1 = hard_reset s"
    by (simp add: s1_def stopBuildNow_def Let_def stopPrintTime_def split: prod.splits)
  have h3: "hard_reset s3 = hard_reset s"
    by (simp add: s3_def s2_def h1 reset_due_def hold_for_reply_def split: prod.splits)
  have run: "runHostSlice fuel s =
    (if fst (hold_for_reply s1) then Some s2
     else if fst (reset_due s2) then Some (perform_reset s3)
     else (let s4 = watch_packet s3 in
            if hasError (uart_in s4) then Some (finish_slice (report_error s4))
            else if isFinished (uart_in s4)
            then (case dispatch_packet fuel s4 of
                    None \<Rightarrow> None
                  | Some s5 \<Rightarrow> Some (finish_slice s5))
            else Some (finish_slice s4)))"
    by (simp add: runHostSlice_def s1_def s2_def s3_def Let_def split: prod.splits)
  show ?thesis
  proof (cases "fst (hold_for_reply s1)")
    case True
    with assms run r2 show ?thesis by simp
  next
    case nohold: False
    show ?thesis
    proof (cases "fst (reset_due s2)")
      case True
      then have due: "\<not> cancelBuild s1 \<or> fst (Timeout_hasElapsed (micros s1) (cancel_timeout s1))"
        by (simp add: reset_due_iff s2_def hold_for_reply_frame)
      have "\<not> cancelBuild s \<or> fst (Timeout_hasElapsed (micros s) (cancel_timeout s))"
      proof (rule ccontr)
        assume "\<not> ?thesis"
        then have c: "cancelBuild s" "\<not> fst (Timeout_hasElapsed (micros s) (cancel_timeout s))"
          by simp_all
        have "cancelBuild s1 \<and> \<not> fst (Timeout_hasElapsed (micros s1) (cancel_timeout s1))"
          using finalise_keeps_cancel_pending[OF c] c by (simp add: s1_def)
        with due show False by simp
      qed
      moreover have "s' = perform_reset s3" using assms run nohold True by simp
      ultimately show ?thesis by (simp add: resets_perform_reset r3 h3)
    next
      case False
      have "resets s' = resets s"
        using assms run nohold False r3
        by (auto simp: Let_def split: if_splits option.splits dest!: resets_dispatch_packet)
      then show ?thesis by simp
    qed
  qed
qed

lemma handleToolQuery_returns:
  assumes "poll_micros s \<noteq> 0"
  shows "handleToolQuery (50001 + m) p to_host s \<noteq> None"
proof -
  obtain got s1 where "acquire_lock (50001 + m)
      (Timeout_start (micros s) HOST_TOOL_RESPONSE_TIMEOUT_MICROS Timeout_new) s = Some (got, s1)"
    using acquire_lock_returns[OF assms] by blast
  then show ?thesis by (simp add: handleToolQuery_def)
qed

lemma handlePause_returns:
  assumes "poll_micros s \<noteq> 0"
  shows "handlePause (50001 + m) p to_host s \<noteq> None"
proof (cases "command_pauseIntermediateState s")
  case True
  then show ?thesis by (simp add: handlePause_def)
next
  case False
  let ?s0 = "pauseBuild (\<not> command_isPaused s) (PAUSE_EXT_OFF OR PAUSE_HBP_OFF) s"
  have "poll_micros ?s0 \<noteq> 0" using assms by simp
  then obtain relay s' where "doToolPause (50001 + m) to_host ?s0 = Some (to_host @ relay, s')"
    using doToolPause_reply by blast
  with False show ?thesis by (simp add: handlePause_def)
qed

lemma handled_not_None [simp]: "handled r \<noteq> None"
  by (simp add: handled_def)

lemma processQueryPacket_None:
  "processQueryPacket fuel p to_host s = None \<Longrightarrow>
   handlePause fuel p to_host s = None \<or> handleToolQuery fuel p to_host s = None"
  unfolding processQueryPacket_def Let_def
  by (simp split: if_split_asm option.split_asm)

lemma processQueryPacket_returns:
  assumes "poll_micros s \<noteq> 0"
  shows "processQueryPacket (50001 + m) p to_host s \<noteq> None"
proof
  assume "processQueryPacket (50001 + m) p to_host s = None"
  then have "handlePause (50001 + m) p to_host s = None \<or>
             handleToolQuery (50001 + m) p to_host s = None"
    by (rule processQueryPacket_None)
  then show False
    using handlePause_returns[OF assms, of m p to_host]
          handleToolQuery_returns[OF assms, of m p to_host]
    by (elim disjE) (simp_all del: not_None_eq)
qed

lemma processCommandPacket_not_done:
  "processCommandPacket p to_host s = (False, out, s') \<Longrightarrow> s' = s"
  by (auto simp: processCommandPacket_def Let_def split: if_splits)

lemma dispatch_packet_returns:
  assumes "poll_micros s \<noteq> 0"
  shows "dispatch_packet (50001 + m) s \<noteq> None"
proof -
  let ?s1 = "s\<lparr>packet_in_timeout := Timeout_abort (packet_in_timeout s), uart_out := []\<rparr>"
  have "poll_micros ?s1 \<noteq> 0" using assms by simp
  then have "processQueryPacket (50001 + m) (uart_in s) out ?s1 \<noteq> None" for out
    by (rule processQueryPacket_returns)
  then have q: "(processQueryPacket (50001 + m) (uart_in s) out ?s1 = None) = False" for out
    by simp
  show ?thesis
    unfolding dispatch_packet_def Let_def
    by (auto simp: q split: option.splits prod.splits if_splits
          dest!: processCommandPacket_not_done)
qed

lemma poll_micros_prefix:
  "poll_micros (stopBuildNow s) = poll_micros s"
  "poll_micros (snd (hold_for_reply s)) = poll_micros s"
  "poll_micros (snd (reset_due s)) = poll_micros s"
  "poll_micros (watch_packet s) = poll_micros s"
  by (simp_all add: stopBuildNow_def Let_def stopPrintTime_def hold_for_reply_def
        reset_due_def watch_packet_def split: prod.splits)

lemma runHostSlice_unfold:
  "runHostSlice fuel s =
     (let s1 = (if buildState s = BUILD_CANCELLING \<and> command_pauseState s = PAUSE_STATE_PAUSED
                then stopBuildNow s else s);
          s2 = snd (hold_for_reply s1);
          s3 = snd (reset_due s2);
          s4 = watch_packet s3
      in if fst (hold_for_reply s1) then Some s2
         else if fst (reset_due s2) then Some (perform_reset s3)
         else if hasError (uart_in s4) then Some (finish_slice (report_error s4))
         else if isFinished (uart_in s4) then map_option finish_slice (dispatch_packet fuel s4)
         else Some (finish_slice s4))"
  by (simp add: runHostSlice_def Let_def split: prod.splits option.splits)

lemma runHostSlice_returns:
  assumes "poll_micros s \<noteq> 0"
  shows "runHostSlice (50001 + m) s \<noteq> None"
proof -
  define s1 where "s1 = (if buildState s = BUILD_CANCELLING \<and> command_pauseState s = PAUSE_STATE_PAUSED
                then stopBuildNow s else s)"
  define s4 where "s4 = watch_packet (snd (reset_due (snd (hold_for_reply s1))))"
  have "poll_micros s4 = poll_micros s" by (simp add: s4_def s1_def poll_micros_prefix)
  then have "dispatch_packet (50001 + m) s4 \<noteq> None"
    using assms by (intro dispatch_packet_returns) simp
  then show ?thesis
    unfolding runHostSlice_unfold Let_def s4_def s1_def by simp
qed

lemma reset_fires_when_due:
  assumes "do_host_reset s" and "\<not> uart_sending s"
    and "\<not> (buildState s = BUILD_CANCELLING \<and> command_pauseState s = PAUSE_STATE_PAUSED)"
    and "\<not> cancelBuild s \<or> fst (Timeout_hasElapsed (micros s) (cancel_timeout s))"
  shows "\<exists>s'. runHostSlice fuel s = Some s' \<and> resets s' = resets s @ [hard_reset s] \<and>
              \<not> do_host_reset s' \<and> currentState s' = HOST_STATE_READY"
proof -
  have h: "hold_for_reply s = (False, s)" using assms(2) by (simp add: hold_for_reply_def)
  have d: "fst (reset_due s)" using assms(1,4) by (simp add: reset_due_iff)
  have hr: "hard_reset (snd (reset_due s)) = hard_reset s"
    by (simp add: reset_due_def split: prod.splits)
  have ns: "(if buildState s = BUILD_CANCELLING \<and> command_pauseState s = PAUSE_STATE_PAUSED
             then stopBuildNow s else s) = s"
    using assms(3) by auto
  have "runHostSlice fuel s = Some (perform_reset (snd (reset_due s)))"
    unfolding runHostSlice_unfold Let_def ns using h d by simp
  moreover have "resets (perform_reset (snd (reset_due s))) = resets s @ [hard_reset s]"
    by (simp add: resets_perform_reset reset_due_frame hr)
  moreover have "\<not> do_host_reset (perform_reset (snd (reset_due s)))"
    "currentState (perform_reset (snd (reset_due s))) = HOST_STATE_READY"
    by (simp_all add: perform_reset_def Let_def reset_def)
  ultimately show ?thesis by simp
qed

text \<open>
  C6. One call of \<^verbatim>\<open>runHostSlice\<close>, with the calls of \<^verbatim>\<open>reset\<close> recorded in \<open>resets\<close>.
  The call returns when the board clock advances during a busy wait. Whenever it
  returns: if a cancel notification is pending and the cancel grace timeout has not
  elapsed, it has not called \<^verbatim>\<open>reset\<close>, whether or not a reset is pending; and if it
  has called \<^verbatim>\<open>reset\<close>, it did so once, and the cancel notification was no longer
  pending or the cancel grace timeout had elapsed. Conversely a pending reset is
  performed by the call, for any bound on the lock loop, as soon as no reply is being
  sent, no cancel is being finalised, and the cancel notification is no longer pending
  or its timeout has elapsed.
\<close>

theorem deferred_reset_waits_for_cancel:
  "(poll_micros s \<noteq> 0 \<longrightarrow> runHostSlice (50001 + m) s \<noteq> None) \<and>
   (\<forall>s'. runHostSlice fuel s = Some s' \<longrightarrow>
      (cancelBuild s \<and> \<not> fst (Timeout_hasElapsed (micros s) (cancel_timeout s)) \<longrightarrow>
         resets s' = resets s) \<and>
      (resets s' \<noteq> resets s \<longrightarrow>
         resets s' = resets s @ [hard_reset s] \<and>
         (\<not> cancelBuild s \<or> fst (Timeout_hasElapsed (micros s) (cancel_timeout s))))) \<and>
   (do_host_reset s \<and> \<not> uart_sending s \<and>
    \<not> (buildState s = BUILD_CANCELLING \<and> command_pauseState s = PAUSE_STATE_PAUSED) \<and>
    (\<not> cancelBuild s \<or> fst (Timeout_hasElapsed (micros s) (cancel_timeout s))) \<longrightarrow>
      (\<exists>s'. runHostSlice fuel s = Some s' \<and> resets s' = resets s @ [hard_reset s] \<and>
            \<not> do_host_reset s' \<and> currentState s' = HOST_STATE_READY))"
proof (intro conjI impI allI)
  assume "poll_micros s \<noteq> 0"
  then show "runHostSlice (50001 + m) s \<noteq> None" by (rule runHostSlice_returns)
next
  fix s'
  assume "runHostSlice fuel s = Some s'"
    and "cancelBuild s \<and> \<not> fst (Timeout_hasElapsed (micros s) (cancel_timeout s))"
  then show "resets s' = resets s" using runHostSlice_resets[of fuel s s'] by blast
next
  fix s'
  assume "runHostSlice fuel s = Some s'" and "resets s' \<noteq> resets s"
  then show "resets s' = resets s @ [hard_reset s]"
    using runHostSlice_resets[of fuel s s'] by blast
next
  fix s'
  assume "runHostSlice fuel s = Some s'" and "resets s' \<noteq> resets s"
  then show "\<not> cancelBuild s \<or> fst (Timeout_hasElapsed (micros s) (cancel_timeout s))"
    using runHostSlice_resets[of fuel s s'] by blast
next
  assume "do_host_reset s \<and> \<not> uart_sending s \<and>
    \<not> (buildState s = BUILD_CANCELLING \<and> command_pauseState s = PAUSE_STATE_PAUSED) \<and>
    (\<not> cancelBuild s \<or> fst (Timeout_hasElapsed (micros s) (cancel_timeout s)))"
  then show "\<exists>s'. runHostSlice fuel s = Some s' \<and> resets s' = resets s @ [hard_reset s] \<and>
            \<not> do_host_reset s' \<and> currentState s' = HOST_STATE_READY"
    by (intro reset_fires_when_due) simp_all
qed

lemma cancel_pending_host_fields:
  "poll_micros (cancel_pending_host now) = 1000"
  "cancelBuild (cancel_pending_host now)"
  "do_host_reset (cancel_pending_host now)"
  "\<not> uart_sending (cancel_pending_host now)"
  "\<not> hard_reset (cancel_pending_host now)"
  "resets (cancel_pending_host now) = []"
  "buildState (cancel_pending_host now) = BUILD_CANCELED"
  "micros (cancel_pending_host now) = now"
  "cancel_timeout (cancel_pending_host now) = Timeout_start 0 1000000 Timeout_new"
  by (simp_all add: cancel_pending_host_def example_host_def)

theorem deferred_reset_waits_for_cancel_witness:
  "(\<exists>s'. runHostSlice 50001 (cancel_pending_host 999999) = Some s' \<and> resets s' = []) \<and>
   (\<exists>s'. runHostSlice 50001 (cancel_pending_host 1000000) = Some s' \<and> resets s' = [False]) \<and>
   (\<exists>s'. runHostSlice 50001 ((cancel_pending_host 999999)\<lparr>cancelBuild := False\<rparr>) = Some s' \<and>
         resets s' = [False])"
proof -
  have e: "\<not> fst (Timeout_hasElapsed 999999 (Timeout_start 0 1000000 Timeout_new))"
    "fst (Timeout_hasElapsed 1000000 (Timeout_start 0 1000000 Timeout_new))"
    by (simp_all add: Timeout_hasElapsed_def Timeout_start_def Timeout_new_def)
  have a: "\<exists>s'. runHostSlice 50001 (cancel_pending_host 999999) = Some s' \<and> resets s' = []"
    using deferred_reset_waits_for_cancel[of "cancel_pending_host 999999" 0 50001] e(1)
    by (auto simp: cancel_pending_host_fields)
  have b: "\<exists>s'. runHostSlice 50001 (cancel_pending_host 1000000) = Some s' \<and> resets s' = [False]"
    using deferred_reset_waits_for_cancel[of "cancel_pending_host 1000000" 0 50001] e(2)
    by (auto simp: cancel_pending_host_fields command_pauseState_def)
  have c: "\<exists>s'. runHostSlice 50001 ((cancel_pending_host 999999)\<lparr>cancelBuild := False\<rparr>) = Some s' \<and>
         resets s' = [False]"
    using deferred_reset_waits_for_cancel[of "(cancel_pending_host 999999)\<lparr>cancelBuild := False\<rparr>" 0 50001]
    by (auto simp: cancel_pending_host_fields command_pauseState_def)
  from a b c show ?thesis by blast
qed

end
